theory Spec2Isabelle
  imports Complex_Main
begin

section \<open>Numbers, tolerances and Python errors\<close>

text \<open>
  The repository computes on numpy arrays and torch tensors of floating-point numbers.
  The embedding idealises every such number as a rational: comparisons and sums are
  exact, rounding is not modelled. Every concrete input used below stays far away from
  the tolerances it is compared with.

  \<^verbatim>\<open>np.isclose(a, b, rtol=1e-05, atol=1e-08)\<close> and \<^verbatim>\<open>torch.isclose(input, other, rtol=1e-05, atol=1e-08)\<close>
  both test \<open>|a - b| \<le> atol + rtol * |b|\<close>, element by element; the third positional
  argument of both is \<open>rtol\<close>.
\<close>

datatype py_error =
    RuntimeError | ValueError | TypeError | IndexError | KeyError
  | NotImplementedError | EmptyPanelError | InvalidPatternDefError

definition isclose :: "rat \<Rightarrow> rat \<Rightarrow> rat \<Rightarrow> rat \<Rightarrow> bool" where
  "isclose a b rtol atol = (\<bar>a - b\<bar> \<le> atol + rtol * \<bar>b\<bar>)"

definition rtol_default :: rat where
  "rtol_default = 1 / 100000"

definition atol_default :: rat where
  "atol_default = 1 / 100000000"

text \<open>\<^verbatim>\<open>int(x)\<close> of Python truncates towards zero.\<close>

definition py_int :: "rat \<Rightarrow> int" where
  "py_int x = (if 0 \<le> x then \<lfloor>x\<rfloor> else \<lceil>x\<rceil>)"

section \<open>GarmentBaseDataset: unpadding and normalisation statistics (nn/data.py)\<close>

text \<open>
  A batch viewed as \<^verbatim>\<open>input_batch.view(-1, input_batch.shape[-1])\<close> is a list of rows.
  \<^verbatim>\<open>_unpad\<close> keeps the rows that are not all close to zero.
\<close>

definition unpad :: "rat list list \<Rightarrow> rat \<Rightarrow> rat list list" where
  "unpad element tolerance =
     filter (\<lambda>row. \<not> list_all (\<lambda>x. isclose x 0 rtol_default tolerance) row) element"

text \<open>
  \<^verbatim>\<open>torch.min(input_batch, 0)\<close> and \<^verbatim>\<open>torch.max(input_batch, 0)\<close>: the minimum and the
  maximum of every column, over the rows. Both raise on a batch without rows.
\<close>

definition column :: "rat list list \<Rightarrow> nat \<Rightarrow> rat list" where
  "column rows j = map (\<lambda>r. r ! j) rows"

definition col_min :: "rat list list \<Rightarrow> rat list" where
  "col_min rows =
     map (\<lambda>j. foldl min (hd (column rows j)) (tl (column rows j))) [0..<length (hd rows)]"

definition col_max :: "rat list list \<Rightarrow> rat list" where
  "col_max rows =
     map (\<lambda>j. foldl max (hd (column rows j)) (tl (column rows j))) [0..<length (hd rows)]"

text \<open>The body of the loop of \<^verbatim>\<open>_get_norm_stats\<close>, for one dimension.\<close>

definition scale_entry :: "rat \<Rightarrow> rat \<Rightarrow> rat" where
  "scale_entry tmin tmax =
     (if isclose tmin tmax rtol_default atol_default
      then (if \<not> isclose tmin 0 rtol_default atol_default then tmin else 1)
      else tmax - tmin)"

definition get_norm_stats :: "rat list list \<Rightarrow> bool \<Rightarrow> py_error + (rat list \<times> rat list)" where
  "get_norm_stats input_batch padded =
     (let batch = (if padded then unpad input_batch (1 / 100000) else input_batch)
      in if batch = [] then Inl RuntimeError
         else let min_vector = col_min batch;
                  max_vector = col_max batch;
                  scale = map (\<lambda>(tmin, tmax). scale_entry tmin tmax) (zip min_vector max_vector)
              in Inr (min_vector, scale))"

section \<open>DatasetWrapper: reproducible splits (nn/data.py)\<close>

text \<open>
  The values stored in the \<^verbatim>\<open>split_info\<close> dictionary are numbers or \<^verbatim>\<open>None\<close>; the
  dictionary is an association list, so that the emptiness test of \<^verbatim>\<open>if split_info:\<close>
  and the key tests are computable.
\<close>

datatype pyval = PNone | PNum rat

type_synonym split_dict = "(string \<times> pyval) list"

fun dict_set :: "'k \<Rightarrow> 'v \<Rightarrow> ('k \<times> 'v) list \<Rightarrow> ('k \<times> 'v) list" where
  "dict_set k v [] = [(k, v)]"
| "dict_set k v ((k', v') # d) = (if k' = k then (k, v) # d else (k', v') # dict_set k v d)"

text \<open>
  The torch runtime is not part of the repository. It is a parameter of the model: the
  state of the shared generator is a value of type \<open>'g\<close>, \<^verbatim>\<open>torch.manual_seed\<close> builds
  such a state from an integer, \<^verbatim>\<open>torch.randperm\<close> reads the state, returns a list of
  indices and the advanced state, and the constructor of \<^verbatim>\<open>DataLoader\<close> may accept or
  reject a subset, a batch size and a shuffle flag.
\<close>

record ('g, 'l) torch =
  manual_seed :: "int \<Rightarrow> 'g"
  randperm :: "'g \<Rightarrow> nat \<Rightarrow> nat list \<times> 'g"
  DataLoader :: "nat list \<Rightarrow> nat \<Rightarrow> bool \<Rightarrow> py_error + 'l"

text \<open>
  The wrapper. A subset of the dataset is the list of its indices; before any split the
  training section is the whole dataset.
\<close>

record ('g, 'l) wrapper =
  dataset_len :: nat
  training :: "nat list"
  validation :: "nat list option"
  test :: "nat list option"
  batch_size :: "nat option"
  loader_full :: "'l option"
  loader_train :: "'l option"
  loader_validation :: "'l option"
  loader_test :: "'l option"
  split_info :: split_dict
  generator :: 'g

definition init_wrapper :: "nat \<Rightarrow> 'g \<Rightarrow> ('g, 'l) wrapper" where
  "init_wrapper n g =
     \<lparr> dataset_len = n, training = [0..<n], validation = None, test = None,
       batch_size = None, loader_full = None, loader_train = None,
       loader_validation = None, loader_test = None,
       split_info = [(''random_seed'', PNone), (''valid_percent'', PNone), (''test_percent'', PNone)],
       generator = g \<rparr>"

text \<open>\<^verbatim>\<open>indices[a:b]\<close> of Python, for integers of either sign.\<close>

definition py_slice :: "'a list \<Rightarrow> int \<Rightarrow> int \<Rightarrow> 'a list" where
  "py_slice xs a b =
     (let n = int (length xs);
          lo = (if a < 0 then max (a + n) 0 else min a n);
          hi = (if b < 0 then max (b + n) 0 else min b n)
      in take (nat (hi - lo)) (drop (nat lo) xs))"

fun accumulate :: "int \<Rightarrow> int list \<Rightarrow> int list" where
  "accumulate acc [] = []"
| "accumulate acc (x # xs) = (acc + x) # accumulate (acc + x) xs"

text \<open>
  \<^verbatim>\<open>torch.utils.data.random_split(dataset, lengths)\<close>: the lengths must sum to the length
  of the dataset; one permutation is drawn from the shared generator and cut into
  consecutive pieces \<^verbatim>\<open>indices[offset - length:offset]\<close>.
\<close>

definition random_split ::
  "('g, 'l) torch \<Rightarrow> 'g \<Rightarrow> nat \<Rightarrow> int list \<Rightarrow> py_error + (nat list list \<times> 'g)" where
  "random_split T g n lengths =
     (if sum_list lengths \<noteq> int n then Inl ValueError
      else let (indices, g') = randperm T g n
           in Inr (map (\<lambda>(offset, len). py_slice indices (offset - len) offset)
                       (zip (accumulate 0 lengths) lengths), g'))"

text \<open>A subset is true in a condition when it is present and not empty.\<close>

definition subset_truthy :: "nat list option \<Rightarrow> bool" where
  "subset_truthy s = (case s of None \<Rightarrow> False | Some ix \<Rightarrow> ix \<noteq> [])"

definition opt_loader ::
  "('g, 'l) torch \<Rightarrow> nat list option \<Rightarrow> nat \<Rightarrow> py_error + 'l option" where
  "opt_loader T s b =
     (if subset_truthy s
      then (case DataLoader T (the s) b False of Inl e \<Rightarrow> Inl e | Inr l \<Rightarrow> Inr (Some l))
      else Inr None)"

text \<open>\<^verbatim>\<open>if batch_size is not None: self.batch_size = batch_size\<close>\<close>

definition set_batch_size :: "nat option \<Rightarrow> ('g, 'l) wrapper \<Rightarrow> ('g, 'l) wrapper" where
  "set_batch_size bs w = (case bs of Some b \<Rightarrow> w\<lparr>batch_size := Some b\<rparr> | None \<Rightarrow> w)"

definition new_loaders ::
  "('g, 'l) torch \<Rightarrow> nat option \<Rightarrow> bool \<Rightarrow> ('g, 'l) wrapper \<Rightarrow> py_error + ('g, 'l) wrapper" where
  "new_loaders T bs shuffle_train w =
     (let w1 = set_batch_size bs w
      in case batch_size w1 of
           None \<Rightarrow> Inl RuntimeError
         | Some b \<Rightarrow>
            (case DataLoader T (training w1) b shuffle_train of
               Inl e \<Rightarrow> Inl e
             | Inr lt \<Rightarrow>
                (case opt_loader T (validation w1) b of
                   Inl e \<Rightarrow> Inl e
                 | Inr lv \<Rightarrow>
                    (case opt_loader T (test w1) b of
                       Inl e \<Rightarrow> Inl e
                     | Inr lte \<Rightarrow>
                        (case DataLoader T [0..<dataset_len w1] b False of
                           Inl e \<Rightarrow> Inl e
                         | Inr lf \<Rightarrow>
                            Inr (w1\<lparr>loader_train := Some lt, loader_validation := lv,
                                     loader_test := lte, loader_full := Some lf\<rparr>))))))"

text \<open>Reading a number out of the dictionary: a missing key and \<^verbatim>\<open>None\<close> both raise.\<close>

definition dict_num :: "split_dict \<Rightarrow> string \<Rightarrow> py_error + rat" where
  "dict_num d k =
     (case map_of d k of
        None \<Rightarrow> Inl KeyError
      | Some PNone \<Rightarrow> Inl TypeError
      | Some (PNum r) \<Rightarrow> Inr r)"

text \<open>
  The partition itself: lines 99 to 108 of \<^verbatim>\<open>load_split\<close>. The generator is seeded
  first, whatever its state was.
\<close>

definition partition_split ::
  "('g, 'l) torch \<Rightarrow> ('g, 'l) wrapper \<Rightarrow> py_error + ('g, 'l) wrapper" where
  "partition_split T w =
     (case dict_num (split_info w) ''random_seed'' of
        Inl e \<Rightarrow> Inl e
      | Inr seed \<Rightarrow>
         (let g = manual_seed T (py_int seed);
              n = dataset_len w
          in case dict_num (split_info w) ''valid_percent'' of
               Inl e \<Rightarrow> Inl e
             | Inr vp \<Rightarrow>
                (let valid_size = py_int (of_nat n * vp / 100)
                 in case map_of (split_info w) ''test_percent'' of
                      None \<Rightarrow> Inl KeyError
                    | Some tp \<Rightarrow>
                       (if tp \<noteq> PNone \<and> tp \<noteq> PNum 0
                        then (let test_size = py_int (of_nat n * (case tp of PNum r \<Rightarrow> r | PNone \<Rightarrow> 0) / 100)
                              in case random_split T g n [int n - valid_size - test_size, valid_size, test_size] of
                                   Inl e \<Rightarrow> Inl e
                                 | Inr (parts, g') \<Rightarrow>
                                     Inr (w\<lparr>training := parts ! 0, validation := Some (parts ! 1),
                                            test := Some (parts ! 2), generator := g'\<rparr>))
                        else (case random_split T g n [int n - valid_size, valid_size] of
                                Inl e \<Rightarrow> Inl e
                              | Inr (parts, g') \<Rightarrow>
                                  Inr (w\<lparr>training := parts ! 0, validation := Some (parts ! 1),
                                         test := None, generator := g'\<rparr>))))))"

type_synonym split_result = "nat list \<times> nat list option \<times> nat list option"

text \<open>\<^verbatim>\<open>return self.training, self.validation, self.test\<close>\<close>

definition split_view :: "('g, 'l) wrapper \<Rightarrow> split_result" where
  "split_view w = (training w, validation w, test w)"

text \<open>Lines 110 to 119 of \<^verbatim>\<open>load_split\<close>: the loaders are rebuilt when a batch size is known.\<close>

definition refresh_loaders ::
  "('g, 'l) torch \<Rightarrow> nat option \<Rightarrow> ('g, 'l) wrapper
     \<Rightarrow> py_error + (split_result \<times> ('g, 'l) wrapper)" where
  "refresh_loaders T batch_size_arg w2 =
     (let w3 = set_batch_size batch_size_arg w2
      in case (if batch_size w3 \<noteq> None then new_loaders T None True w3 else Inr w3) of
           Inl e \<Rightarrow> Inl e
         | Inr w4 \<Rightarrow> Inr (split_view w4, w4))"

text \<open>\<^verbatim>\<open>any([key not in split_info for key in self.split_info])\<close>\<close>

definition any_key_missing :: "split_dict \<Rightarrow> split_dict \<Rightarrow> bool" where
  "any_key_missing given own = (\<exists>key \<in> set (map fst own). map_of given key = None)"

definition load_split ::
  "('g, 'l) torch \<Rightarrow> split_dict option \<Rightarrow> nat option \<Rightarrow> ('g, 'l) wrapper
     \<Rightarrow> py_error + (split_result \<times> ('g, 'l) wrapper)" where
  "load_split T split_info_arg batch_size_arg w =
     (let given = (case split_info_arg of None \<Rightarrow> [] | Some d \<Rightarrow> d)
      in if given \<noteq> [] \<and> any_key_missing given (split_info w)
         then Inl ValueError
         else let w1 = (if given \<noteq> [] then w\<lparr>split_info := given\<rparr> else w)
              in case partition_split T w1 of
                   Inl e \<Rightarrow> Inl e
                 | Inr w2 \<Rightarrow> refresh_loaders T batch_size_arg w2)"

text \<open>
  \<^verbatim>\<open>new_split\<close>. The clock is a parameter: \<open>now\<close> is the value of \<^verbatim>\<open>int(time.time())\<close> at
  the call. The seed is tested for truth, so \<^verbatim>\<open>None\<close> and \<open>0\<close> take the same branch.
\<close>

definition new_split ::
  "('g, 'l) torch \<Rightarrow> int \<Rightarrow> rat \<Rightarrow> rat option \<Rightarrow> int option \<Rightarrow> ('g, 'l) wrapper
     \<Rightarrow> py_error + (split_result \<times> ('g, 'l) wrapper)" where
  "new_split T now valid_percent test_percent random_seed w =
     (let seed = (case random_seed of None \<Rightarrow> now | Some s \<Rightarrow> if s \<noteq> 0 then s else now);
          d1 = dict_set ''random_seed'' (PNum (of_int seed)) (split_info w);
          d2 = dict_set ''valid_percent'' (PNum valid_percent) d1;
          d3 = dict_set ''test_percent'' (case test_percent of None \<Rightarrow> PNone | Some t \<Rightarrow> PNum t) d2
      in load_split T None None (w\<lparr>split_info := d3\<rparr>))"

text \<open>
  A small runtime to run the model on: the generator state is an integer, a permutation
  is a rotation of \<open>[0..<n]\<close> by the state modulo \<open>n + 1\<close>, every loader is accepted.
\<close>

definition toy_torch :: "(int, nat list \<times> nat \<times> bool) torch" where
  "toy_torch =
     \<lparr> manual_seed = (\<lambda>s. s),
       randperm = (\<lambda>g n. (rotate (nat (g mod (int n + 1))) [0..<n], g + 1)),
       DataLoader = (\<lambda>ix b sh. Inr (ix, b, sh)) \<rparr>"

section \<open>Transforms: SampleToTensor (nn/data.py)\<close>

text \<open>
  A numpy array and a torch tensor are kept apart by their types; both hold their numbers
  as a flat list. \<open>Tensor []\<close> is the empty tensor \<^verbatim>\<open>torch.Tensor()\<close>.
\<close>

datatype ndarray = NDArray "rat list"

datatype tensor = Tensor "rat list"

text \<open>A value of a ground-truth dictionary is a numpy array or any other sequence of numbers.\<close>

datatype dict_value = ArrayValue ndarray | SequenceValue "rat list"

datatype ground_truth_in = GtNone | GtArray ndarray | GtDict "(string \<times> dict_value) list"

text \<open>
  What the transform can put under \<^verbatim>\<open>'ground_truth'\<close>: a tensor, a Python tuple of
  tensors, or a dictionary of tensors.
\<close>

datatype ground_truth_out =
    AsTensor tensor | AsTuple "tensor list" | AsDict "(string \<times> tensor) list"

record ('f, 'g) sample =
  features :: 'f
  ground_truth :: 'g
  name :: string

definition from_numpy_float :: "ndarray \<Rightarrow> tensor" where
  "from_numpy_float a = (case a of NDArray xs \<Rightarrow> Tensor xs)"

definition dict_to_tensors :: "(string \<times> dict_value) list \<Rightarrow> (string \<times> tensor) list" where
  "dict_to_tensors dict_obj =
     map (\<lambda>(key, v). (key, case v of ArrayValue a \<Rightarrow> from_numpy_float a
                                   | SequenceValue xs \<Rightarrow> Tensor xs)) dict_obj"

text \<open>
  \<^verbatim>\<open>SampleToTensor.__call__\<close>. The assignment of the \<^verbatim>\<open>else\<close> branch ends in a comma,
  \<^verbatim>\<open>new_gt = torch.from_numpy(gt).float() if gt is not None else torch.Tensor(),\<close>
  so its right-hand side is a tuple of one element.
\<close>

definition SampleToTensor ::
  "(ndarray option, ground_truth_in) sample \<Rightarrow> (tensor, ground_truth_out) sample" where
  "SampleToTensor smp =
     (let gt = ground_truth smp;
          new_gt = (case gt of
                      GtDict d \<Rightarrow> AsDict (dict_to_tensors d)
                    | GtArray a \<Rightarrow> AsTuple [from_numpy_float a]
                    | GtNone \<Rightarrow> AsTuple [Tensor []])
      in \<lparr> features = (case features smp of Some a \<Rightarrow> from_numpy_float a | None \<Rightarrow> Tensor []),
           ground_truth = new_gt,
           name = name smp \<rparr>)"

section \<open>MayaGarment: the static-equilibrium test (mayaqltools/mayascene.py)\<close>

text \<open>A snapshot is an array of shape \<open>(n, 3)\<close>: one row of three coordinates per vertex.\<close>

type_synonym vertex3 = "rat \<times> rat \<times> rat"

record garment =
  loaded_to_maya :: bool
  last_verts :: "vertex3 list option"
  current_verts :: "vertex3 list option"

text \<open>
  \<^verbatim>\<open>update_verts_info\<close>; the vertex positions read from Maya are the argument \<open>vertices\<close>.
\<close>

definition update_verts_info :: "vertex3 list \<Rightarrow> garment \<Rightarrow> py_error + garment" where
  "update_verts_info vertices g =
     (if \<not> loaded_to_maya g then Inl RuntimeError
      else Inr (g\<lparr>last_verts := current_verts g, current_verts := Some vertices\<rparr>))"

text \<open>What \<^verbatim>\<open>is_static\<close> returns: a bare boolean, or a pair of a boolean and a count.\<close>

datatype static_result = JustBool bool | BoolCount bool nat

definition l1_row :: "vertex3 \<Rightarrow> vertex3 \<Rightarrow> rat" where
  "l1_row a b =
     (case a of (ax, ay, az) \<Rightarrow> case b of (bx, by, bz) \<Rightarrow> \<bar>ax - bx\<bar> + \<bar>ay - by\<bar> + \<bar>az - bz\<bar>)"

text \<open>
  \<^verbatim>\<open>np.sum(np.abs(current - last), axis=1)\<close>. Arrays of the same number of rows are
  subtracted row by row; numpy broadcasts an array of one row against the other; any
  other pair of shapes raises.
\<close>

definition diff_L1 :: "vertex3 list \<Rightarrow> vertex3 list \<Rightarrow> py_error + rat list" where
  "diff_L1 cur prev =
     (if length cur = length prev then Inr (map (\<lambda>(c, l). l1_row c l) (zip cur prev))
      else if length prev = 1 then Inr (map (\<lambda>c. l1_row c (hd prev)) cur)
      else if length cur = 1 then Inr (map (\<lambda>l. l1_row (hd cur) l) prev)
      else Inl ValueError)"

definition is_static :: "rat \<Rightarrow> rat \<Rightarrow> garment \<Rightarrow> py_error + static_result" where
  "is_static threshold allowed_non_static_percent g =
     (if \<not> loaded_to_maya g then Inl RuntimeError
      else case last_verts g of
             None \<Rightarrow> Inr (JustBool False)
           | Some prev \<Rightarrow>
              (case current_verts g of
                 None \<Rightarrow> Inl TypeError
               | Some cur \<Rightarrow>
                  (case diff_L1 cur prev of
                     Inl e \<Rightarrow> Inl e
                   | Inr d \<Rightarrow>
                      (let non_static_len = length (filter (\<lambda>x. x > threshold) d)
                       in if non_static_len = 0
                             \<or> of_nat non_static_len
                                  < of_nat (length cur) * (1 / 100) * allowed_non_static_percent
                          then Inr (BoolCount True non_static_len)
                          else Inr (BoolCount False non_static_len)))))"

section \<open>Garment3DPatternFullDataset: stitches from stitch tags (nn/data.py)\<close>

text \<open>
  \<^verbatim>\<open>all(torch.isclose(a, b, tol))\<close> on two tags: the third positional argument is the
  relative tolerance, the absolute one keeps its default.
\<close>

definition all_isclose :: "rat list \<Rightarrow> rat list \<Rightarrow> rat \<Rightarrow> bool" where
  "all_isclose a b rtol = list_all (\<lambda>(x, y). isclose x y rtol atol_default) (zip a b)"

text \<open>
  The tag tensor has shape (panels, edges, tag size): a list of panels, each a list of
  tags. \<^verbatim>\<open>stitch_tags.shape[1]\<close> is the number of tags of a panel.
\<close>

definition tag_at :: "rat list list list \<Rightarrow> nat \<times> nat \<Rightarrow> rat list" where
  "tag_at stitch_tags pe = stitch_tags ! fst pe ! snd pe"

definition non_zero_tags :: "rat list list list \<Rightarrow> (nat \<times> nat) list" where
  "non_zero_tags stitch_tags =
     (let zero_tag = replicate (length (hd (hd stitch_tags))) 0
      in concat (map (\<lambda>panel_id.
           map (\<lambda>edge_id. (panel_id, edge_id))
             (filter (\<lambda>edge_id. \<not> all_isclose (stitch_tags ! panel_id ! edge_id) zero_tag (1 / 100))
                [0..<length (hd stitch_tags)]))
           [0..<length stitch_tags]))"

definition tags_to_stitches :: "rat list list list \<Rightarrow> ((nat \<times> nat) \<times> (nat \<times> nat)) list" where
  "tags_to_stitches stitch_tags =
     (let nz = non_zero_tags stitch_tags
      in concat (map (\<lambda>tag1_id.
           map (\<lambda>tag2_id. (nz ! tag1_id, nz ! tag2_id))
             (filter (\<lambda>tag2_id. all_isclose (tag_at stitch_tags (nz ! tag1_id))
                                            (tag_at stitch_tags (nz ! tag2_id)) (1 / 10))
                [Suc tag1_id..<length nz]))
           [0..<length nz]))"

text \<open>
  The rule in the words of the specification, for comparison: a tag is no candidate when
  every component is within 0.01 of zero, and two candidates are stitched when their
  tags differ by at most 0.1 in every component.
\<close>

definition all_within :: "rat list \<Rightarrow> rat list \<Rightarrow> rat \<Rightarrow> bool" where
  "all_within a b tol = list_all (\<lambda>(x, y). \<bar>x - y\<bar> \<le> tol) (zip a b)"

definition spec_candidates :: "rat list list list \<Rightarrow> (nat \<times> nat) list" where
  "spec_candidates stitch_tags =
     (let zero_tag = replicate (length (hd (hd stitch_tags))) 0
      in concat (map (\<lambda>panel_id.
           map (\<lambda>edge_id. (panel_id, edge_id))
             (filter (\<lambda>edge_id. \<not> all_within (stitch_tags ! panel_id ! edge_id) zero_tag (1 / 100))
                [0..<length (hd stitch_tags)]))
           [0..<length stitch_tags]))"

definition spec_tags_to_stitches :: "rat list list list \<Rightarrow> ((nat \<times> nat) \<times> (nat \<times> nat)) list" where
  "spec_tags_to_stitches stitch_tags =
     (let nz = spec_candidates stitch_tags
      in concat (map (\<lambda>tag1_id.
           map (\<lambda>tag2_id. (nz ! tag1_id, nz ! tag2_id))
             (filter (\<lambda>tag2_id. all_within (tag_at stitch_tags (nz ! tag1_id))
                                           (tag_at stitch_tags (nz ! tag2_id)) (1 / 10))
                [Suc tag1_id..<length nz]))
           [0..<length nz]))"

section \<open>Datasets: standardisation statistics kept in the configuration (nn/data.py)\<close>

text \<open>
  A statistic is an array, or a dictionary of arrays (\<^verbatim>\<open>gt_shift\<close> and \<^verbatim>\<open>gt_scale\<close> of the
  full-pattern dataset). The configuration is a dictionary; the entry \<^verbatim>\<open>'standardize'\<close>
  is expected to hold a dictionary of statistics.
\<close>

datatype stat_value = StatArray "rat list" | StatDict "(string \<times> rat list) list"

type_synonym stats = "(string \<times> stat_value) list"

datatype config_value = ConfStats stats | ConfNum rat | ConfStr string

type_synonym config = "(string \<times> config_value) list"

datatype transform =
    ToTensorTransform
  | FeatureStandartization "rat list" "rat list"
  | GTtandartization stat_value stat_value
  | OtherTransform nat

record dataset =
  config :: config
  transforms :: "transform list"

text \<open>\<^verbatim>\<open>stats[key]\<close>: a value that is no dictionary cannot be indexed, a missing key raises.\<close>

definition stats_get :: "config_value \<Rightarrow> string \<Rightarrow> py_error + stat_value" where
  "stats_get v key =
     (case v of
        ConfStats st \<Rightarrow> (case map_of st key of None \<Rightarrow> Inl KeyError | Some x \<Rightarrow> Inr x)
      | ConfNum r \<Rightarrow> Inl TypeError
      | ConfStr str \<Rightarrow> Inl TypeError)"

text \<open>
  The constructor of \<^verbatim>\<open>FeatureStandartization\<close> calls \<^verbatim>\<open>torch.Tensor\<close> on both arguments and
  so needs arrays; the one of \<^verbatim>\<open>GTtandartization\<close> takes arrays and dictionaries.
\<close>

definition new_FeatureStandartization :: "stat_value \<Rightarrow> stat_value \<Rightarrow> py_error + transform" where
  "new_FeatureStandartization shift scale =
     (case (shift, scale) of
        (StatArray sh, StatArray sc) \<Rightarrow> Inr (FeatureStandartization sh sc)
      | _ \<Rightarrow> Inl TypeError)"

definition is_FeatureStandartization :: "transform \<Rightarrow> bool" where
  "is_FeatureStandartization t = (case t of FeatureStandartization sh sc \<Rightarrow> True | _ \<Rightarrow> False)"

definition is_GTtandartization :: "transform \<Rightarrow> bool" where
  "is_GTtandartization t = (case t of GTtandartization sh sc \<Rightarrow> True | _ \<Rightarrow> False)"

text \<open>
  The first part of both \<^verbatim>\<open>standardize\<close> methods: the statistics come from the
  configuration when it has them, else from the training subset, else the call raises.
  Computing them (a loader over the subset, means and standard deviations through
  \<^verbatim>\<open>torch.sqrt\<close>) is the parameter \<open>compute\<close>, which may raise.
\<close>

definition choose_stats ::
  "('t \<Rightarrow> py_error + stats) \<Rightarrow> 't option \<Rightarrow> dataset \<Rightarrow> py_error + (config_value \<times> dataset)" where
  "choose_stats compute train d =
     (case map_of (config d) ''standardize'' of
        Some stored \<Rightarrow> Inr (stored, d)
      | None \<Rightarrow>
         (case train of
            Some tr \<Rightarrow>
              (case compute tr of
                 Inl e \<Rightarrow> Inl e
               | Inr st \<Rightarrow>
                  Inr (ConfStats st,
                       d\<lparr>config := dict_set ''standardize'' (ConfStats st) (config d)\<rparr>))
          | None \<Rightarrow> Inl ValueError))"

text \<open>
  \<^verbatim>\<open>GarmentPanelDataset.standardize\<close>. The result is the exception raised, if any, and
  the dataset as the call leaves it.
\<close>

definition panel_standardize ::
  "('t \<Rightarrow> py_error + stats) \<Rightarrow> 't option \<Rightarrow> dataset \<Rightarrow> py_error option \<times> dataset" where
  "panel_standardize compute train d =
     (case choose_stats compute train d of
        Inl e \<Rightarrow> (Some e, d)
      | Inr (stats, d1) \<Rightarrow>
         (let d2 = d1\<lparr>transforms := filter (\<lambda>t. \<not> is_FeatureStandartization t) (transforms d1)\<rparr>
          in case stats_get stats ''shift'' of
               Inl e \<Rightarrow> (Some e, d2)
             | Inr shift \<Rightarrow>
                (case stats_get stats ''scale'' of
                   Inl e \<Rightarrow> (Some e, d2)
                 | Inr scale \<Rightarrow>
                    (case new_FeatureStandartization shift scale of
                       Inl e \<Rightarrow> (Some e, d2)
                     | Inr t \<Rightarrow> (None, d2\<lparr>transforms := transforms d2 @ [t]\<rparr>)))))"

text \<open>\<^verbatim>\<open>Garment3DPatternFullDataset.standardize\<close>.\<close>

definition full_standardize ::
  "('t \<Rightarrow> py_error + stats) \<Rightarrow> 't option \<Rightarrow> dataset \<Rightarrow> py_error option \<times> dataset" where
  "full_standardize compute train d =
     (case choose_stats compute train d of
        Inl e \<Rightarrow> (Some e, d)
      | Inr (stats, d1) \<Rightarrow>
         (let d2 = d1\<lparr>transforms :=
                        filter (\<lambda>t. \<not> is_GTtandartization t \<and> \<not> is_FeatureStandartization t)
                          (transforms d1)\<rparr>
          in case stats_get stats ''gt_shift'' of
               Inl e \<Rightarrow> (Some e, d2)
             | Inr gt_shift \<Rightarrow>
                (case stats_get stats ''gt_scale'' of
                   Inl e \<Rightarrow> (Some e, d2)
                 | Inr gt_scale \<Rightarrow>
                    (let d3 = d2\<lparr>transforms := transforms d2 @ [GTtandartization gt_shift gt_scale]\<rparr>
                     in case stats_get stats ''f_shift'' of
                          Inl e \<Rightarrow> (Some e, d3)
                        | Inr f_shift \<Rightarrow>
                           (case stats_get stats ''f_scale'' of
                              Inl e \<Rightarrow> (Some e, d3)
                            | Inr f_scale \<Rightarrow>
                               (case new_FeatureStandartization f_shift f_scale of
                                  Inl e \<Rightarrow> (Some e, d3)
                                | Inr t \<Rightarrow> (None, d3\<lparr>transforms := transforms d3 @ [t]\<rparr>)))))))"

section \<open>NNSewingPattern: patterns as tensors and back (nn/pattern\_converter.py)\<close>

text \<open>
  An edge of the numeric representation is a row of four numbers: the displacement
  \<open>(dx, dy)\<close> to the end vertex and the curvature coordinates \<open>(cx, cy)\<close>. A panel of the
  tensor is a list of such rows, the tensor a list of panels.
\<close>

type_synonym edge_row = "rat \<times> rat \<times> rat \<times> rat"

type_synonym vertex2 = "rat \<times> rat"

record edge_rec =
  endpoints :: "nat \<times> nat"
  curvature :: "vertex2 option"

record panel_rec =
  vertices :: "vertex2 list"
  edges :: "edge_rec list"

record stitch_side =
  panel :: string
  edge :: int

datatype warning = NoReturnToOrigin string | StitchesRemoved

text \<open>
  The pattern: the dictionary of panels in insertion order, the optional entry
  \<^verbatim>\<open>panel_order\<close>, the stitches (each a list of sides) and the warnings printed so far.
  The placement of a panel (rotation, translation) goes through scipy and through
  \<^verbatim>\<open>_panel_universal_transtation\<close> of \<^verbatim>\<open>pattern.core\<close>; the model covers the calls
  without placement tensors.
\<close>

record pattern =
  panels :: "(string \<times> panel_rec) list"
  panel_order :: "string list option"
  stitches :: "stitch_side list list"
  warnings :: "warning list"

definition row_shift :: "edge_row \<Rightarrow> vertex2" where
  "row_shift r = (case r of (dx, dy, cx, cy) \<Rightarrow> (dx, dy))"

definition row_curvature :: "edge_row \<Rightarrow> vertex2" where
  "row_curvature r = (case r of (dx, dy, cx, cy) \<Rightarrow> (cx, cy))"

definition vadd :: "vertex2 \<Rightarrow> vertex2 \<Rightarrow> vertex2" where
  "vadd a b = (fst a + fst b, snd a + snd b)"

text \<open>\<^verbatim>\<open>np.all(np.isclose(row, 0, atol=tol))\<close>\<close>

definition is_pad_row :: "rat \<Rightarrow> edge_row \<Rightarrow> bool" where
  "is_pad_row tol r =
     (case r of (dx, dy, cx, cy) \<Rightarrow>
        isclose dx 0 rtol_default tol \<and> isclose dy 0 rtol_default tol
        \<and> isclose cx 0 rtol_default tol \<and> isclose cy 0 rtol_default tol)"

text \<open>\<^verbatim>\<open>_edge_dict\<close>: the curvature is kept unless both coordinates are within 0.01 of zero.\<close>

definition edge_dict :: "nat \<Rightarrow> nat \<Rightarrow> vertex2 \<Rightarrow> edge_rec" where
  "edge_dict vstart vend c =
     \<lparr> endpoints = (vstart, vend),
       curvature = (if \<not> (isclose (fst c) 0 rtol_default (1 / 100)
                            \<and> isclose (snd c) 0 rtol_default (1 / 100))
                    then Some c else None) \<rparr>"

text \<open>The loop of \<^verbatim>\<open>panel_from_numeric\<close> over all rows but the last.\<close>

fun edge_loop ::
  "nat \<Rightarrow> edge_row list \<Rightarrow> vertex2 list \<times> edge_rec list \<Rightarrow> vertex2 list \<times> edge_rec list" where
  "edge_loop idx [] acc = acc"
| "edge_loop idx (edge_info # rest) (vs, es) =
     (let next_vert = vadd (vs ! idx) (row_shift edge_info)
      in edge_loop (Suc idx) rest
           (vs @ [next_vert], es @ [edge_dict idx (Suc idx) (row_curvature edge_info)]))"

definition strip_padding :: "edge_row list \<Rightarrow> edge_row list" where
  "strip_padding edge_sequence = filter (\<lambda>r. \<not> is_pad_row (3 / 2) r) edge_sequence"

text \<open>
  \<^verbatim>\<open>panel_from_numeric\<close>. An empty sequence that is not padded reaches
  \<^verbatim>\<open>edge_sequence[-1]\<close>, which raises.
\<close>

definition panel_from_numeric ::
  "string \<Rightarrow> edge_row list \<Rightarrow> bool \<Rightarrow> pattern \<Rightarrow> py_error + pattern" where
  "panel_from_numeric panel_name edge_sequence padded pat =
     (let seq = (if padded then strip_padding edge_sequence else edge_sequence)
      in if padded \<and> length seq < 3 then Inl EmptyPanelError
         else if seq = [] then Inl IndexError
         else
           (let (vs, es) = edge_loop 0 (butlast seq) ([(0, 0)], []);
                idx = length vs - 1;
                edge_info = last seq;
                fin_vert = vadd (last vs) (row_shift edge_info)
            in if isclose (fst fin_vert) 0 rtol_default 3 \<and> isclose (snd fin_vert) 0 rtol_default 3
               then Inr (pat\<lparr>panels := dict_set panel_name
                           \<lparr>vertices = vs,
                            edges = es @ [edge_dict idx 0 (row_curvature edge_info)]\<rparr>
                           (panels pat)\<rparr>)
               else Inr (pat\<lparr>panels := dict_set panel_name
                           \<lparr>vertices = vs @ [fin_vert],
                            edges = es @ [edge_dict idx (idx + 1) (row_curvature edge_info)]\<rparr>
                           (panels pat),
                         warnings := warnings pat @ [NoReturnToOrigin panel_name]\<rparr>)))"

text \<open>\<^verbatim>\<open>str(idx)\<close> for a natural number.\<close>

fun str_nat :: "nat \<Rightarrow> string" where
  "str_nat n = (if n < 10 then [''0123456789'' ! n]
                else str_nat (n div 10) @ [''0123456789'' ! (n mod 10)])"

declare str_nat.simps [simp del]

definition slot_name :: "nat \<Rightarrow> string" where
  "slot_name idx = ''panel_'' @ str_nat idx"

text \<open>
  The loop of \<^verbatim>\<open>pattern_from_tensors\<close> over the panel slots. An \<^verbatim>\<open>EmptyPanelError\<close> is
  caught and the slot skipped; any other exception leaves the loop.
\<close>

fun panel_slots ::
  "nat \<Rightarrow> edge_row list list \<Rightarrow> bool \<Rightarrow> pattern \<times> string list \<Rightarrow> py_error + (pattern \<times> string list)" where
  "panel_slots idx [] padded acc = Inr acc"
| "panel_slots idx (rep # rest) padded (pat, in_panel_order) =
     (case panel_from_numeric (slot_name idx) rep padded pat of
        Inr pat' \<Rightarrow> panel_slots (Suc idx) rest padded (pat', in_panel_order @ [slot_name idx])
      | Inl e \<Rightarrow>
          if e = EmptyPanelError then panel_slots (Suc idx) rest padded (pat, in_panel_order)
          else Inl e)"

text \<open>Running a list of steps in order: the first exception ends the run.\<close>

fun in_order :: "('e + 'a) list \<Rightarrow> 'e + 'a list" where
  "in_order [] = Inr []"
| "in_order (x # xs) =
     (case x of
        Inl e \<Rightarrow> Inl e
      | Inr v \<Rightarrow> (case in_order xs of Inl e \<Rightarrow> Inl e | Inr vs \<Rightarrow> Inr (v # vs)))"

text \<open>\<^verbatim>\<open>xs[i]\<close> of Python for an integer of either sign.\<close>

definition py_index :: "'a list \<Rightarrow> int \<Rightarrow> py_error + 'a" where
  "py_index xs i =
     (if 0 \<le> i
      then (if nat i < length xs then Inr (xs ! nat i) else Inl IndexError)
      else (if nat (- i) \<le> length xs then Inr (xs ! (length xs - nat (- i)))
            else Inl IndexError))"

text \<open>
  One side of a stitch. The ids are numpy integers: floor division and remainder by zero
  give zero.
\<close>

definition decode_side :: "nat \<Rightarrow> string list \<Rightarrow> int \<Rightarrow> py_error + stitch_side" where
  "decode_side edges_per_panel in_panel_order pattern_edge_id =
     (let panel_id = pattern_edge_id div int edges_per_panel
      in if panel_id > int (length in_panel_order) - 1 then Inl InvalidPatternDefError
         else case py_index in_panel_order panel_id of
                Inl e \<Rightarrow> Inl e
              | Inr nm \<Rightarrow>
                 Inr \<lparr> panel = nm,
                       edge = (if edges_per_panel = 0 then 0
                               else pattern_edge_id mod int edges_per_panel) \<rparr>)"

text \<open>
  \<^verbatim>\<open>pattern_from_tensors\<close>. The stitches are an integer array of shape (sides, stitches),
  a list of rows; \<^verbatim>\<open>pattern_representation.shape[1]\<close> is the number of rows of a panel
  (taken as 0 for a tensor without panels).
\<close>

definition shape1 :: "'a list list \<Rightarrow> nat" where
  "shape1 t = (case t of [] \<Rightarrow> 0 | x # xs \<Rightarrow> length x)"

definition pattern_from_tensors ::
  "edge_row list list \<Rightarrow> int list list option \<Rightarrow> bool \<Rightarrow> pattern \<Rightarrow> py_error + pattern" where
  "pattern_from_tensors pattern_representation stitches_arg padded pat =
     (case panel_slots 0 pattern_representation padded (pat\<lparr>panels := []\<rparr>, []) of
        Inl e \<Rightarrow> Inl e
      | Inr (pat1, in_panel_order) \<Rightarrow>
         (let pat2 = pat1\<lparr>panel_order := Some in_panel_order, stitches := []\<rparr>
          in if stitches_arg \<noteq> None \<and> the stitches_arg \<noteq> []
             then (if \<not> padded then Inl NotImplementedError
                   else (let rows = the stitches_arg;
                             edges_per_panel = shape1 pattern_representation
                         in case in_order (map (\<lambda>stitch_id.
                                     in_order (map (\<lambda>side_id.
                                         decode_side edges_per_panel in_panel_order
                                           (rows ! side_id ! stitch_id))
                                       [0..<length rows]))
                                   [0..<shape1 rows]) of
                              Inl e \<Rightarrow> Inl e
                            | Inr sts \<Rightarrow> Inr (pat2\<lparr>stitches := sts\<rparr>)))
             else Inr (pat2\<lparr>warnings := warnings pat2 @ [StitchesRemoved]\<rparr>)))"

text \<open>
  Modelled from the spec: \<^verbatim>\<open>panel_order()\<close> of \<^verbatim>\<open>pattern.core\<close>, which is not among the
  sources. "Insertion order defines a default panel traversal order but an explicit
  \<^verbatim>\<open>panel_order\<close> list (when present) is authoritative."
\<close>

definition panel_order_of :: "pattern \<Rightarrow> string list" where
  "panel_order_of pat = (case panel_order pat of Some order \<Rightarrow> order | None \<Rightarrow> map fst (panels pat))"

text \<open>
  Modelled from the spec: \<^verbatim>\<open>_edge_as_vector\<close> of \<^verbatim>\<open>pattern.core\<close>, which is not among the
  sources. "Each edge becomes a 4-component vector = [additive 2D endpoint displacement
  (dx, dy) from the running local origin, 2D curvature-control offset (0,0 if the edge is
  straight)]." The encoder below takes the function as a parameter; this one is used to
  run it.
\<close>

definition spec_edge_as_vector :: "vertex2 list \<Rightarrow> edge_rec \<Rightarrow> py_error + edge_row" where
  "spec_edge_as_vector vs e =
     (case endpoints e of (a, b) \<Rightarrow>
        if a < length vs \<and> b < length vs
        then (let c = (case curvature e of Some c \<Rightarrow> c | None \<Rightarrow> (0, 0))
              in Inr (fst (vs ! b) - fst (vs ! a), snd (vs ! b) - snd (vs ! a), fst c, snd c))
        else Inl IndexError)"

text \<open>\<^verbatim>\<open>np.stack\<close> needs at least one array.\<close>

definition np_stack :: "'a list \<Rightarrow> py_error + 'a list" where
  "np_stack xs = (if xs = [] then Inl ValueError else Inr xs)"

text \<open>
  \<^verbatim>\<open>panel_as_numeric\<close>, the edge sequence only. Padding copies the shape of the first edge
  vector, so a panel without edges cannot be padded.
\<close>

definition panel_as_numeric ::
  "(vertex2 list \<Rightarrow> edge_rec \<Rightarrow> py_error + edge_row) \<Rightarrow> pattern \<Rightarrow> string \<Rightarrow> nat option
     \<Rightarrow> py_error + edge_row list" where
  "panel_as_numeric edge_as_vector pat panel_name pad_to_len =
     (case map_of (panels pat) panel_name of
        None \<Rightarrow> Inl KeyError
      | Some p \<Rightarrow>
         (case in_order (map (edge_as_vector (vertices p)) (edges p)) of
            Inl e \<Rightarrow> Inl e
          | Inr edge_sequence \<Rightarrow>
             (case pad_to_len of
                None \<Rightarrow> np_stack edge_sequence
              | Some n \<Rightarrow>
                 if length edge_sequence > n then Inl ValueError
                 else if length edge_sequence < n \<and> edge_sequence = [] then Inl IndexError
                 else np_stack (edge_sequence @ replicate (n - length edge_sequence) (0, 0, 0, 0)))))"

fun index_of :: "'a list \<Rightarrow> 'a \<Rightarrow> nat option" where
  "index_of [] x = None"
| "index_of (y # ys) x = (if y = x then Some 0 else map_option Suc (index_of ys x))"

text \<open>
  One side of a stitch in \<^verbatim>\<open>pattern_as_tensors\<close>: \<^verbatim>\<open>panel_order.index\<close> raises on an
  unknown panel, and the index array has two rows.
\<close>

definition encode_side :: "string list \<Rightarrow> nat \<Rightarrow> nat \<Rightarrow> stitch_side \<Rightarrow> py_error + int" where
  "encode_side order max_len id_side side =
     (case index_of order (panel side) of
        None \<Rightarrow> Inl ValueError
      | Some panel_id \<Rightarrow>
         if id_side \<ge> 2 then Inl IndexError
         else Inr (int panel_id * int max_len + edge side))"

text \<open>Sequencing two steps: an exception of the first step skips the second.\<close>

definition then_do :: "'e + 'a \<Rightarrow> ('a \<Rightarrow> 'e + 'b) \<Rightarrow> 'e + 'b" where
  "then_do x f = (case x of Inl e \<Rightarrow> Inl e | Inr v \<Rightarrow> f v)"

text \<open>The stages of \<^verbatim>\<open>pattern_as_tensors\<close>, in the order of the source.\<close>

definition panel_lens_of :: "pattern \<Rightarrow> string list \<Rightarrow> py_error + nat list" where
  "panel_lens_of pat order =
     in_order (map (\<lambda>nm. case map_of (panels pat) nm of
                            None \<Rightarrow> Inl KeyError
                          | Some p \<Rightarrow> Inr (length (edges p))) order)"

definition choose_max_len :: "nat option \<Rightarrow> nat list \<Rightarrow> py_error + nat" where
  "choose_max_len pad_panels_to_len panel_lens =
     (case pad_panels_to_len of
        Some n \<Rightarrow> Inr n
      | None \<Rightarrow> if panel_lens = [] then Inl ValueError else Inr (Max (set panel_lens)))"

definition pad_panel_list ::
  "nat option \<Rightarrow> edge_row list list \<Rightarrow> nat list \<Rightarrow> py_error + (edge_row list list \<times> nat list)" where
  "pad_panel_list pad_panels_num seqs panel_lens =
     (case pad_panels_num of
        None \<Rightarrow> Inr (seqs, panel_lens)
      | Some n \<Rightarrow>
         if length seqs < n
         then (if seqs = [] then Inl IndexError
               else Inr (seqs @ replicate (n - length seqs) (replicate (length (hd seqs)) (0, 0, 0, 0)),
                         panel_lens @ replicate (n - length seqs) 0))
         else Inr (seqs, panel_lens))"

definition encode_stitches ::
  "string list \<Rightarrow> nat \<Rightarrow> stitch_side list list \<Rightarrow> py_error + int list list" where
  "encode_stitches order max_len sts =
     in_order (map (\<lambda>stitch.
                 in_order (map (\<lambda>id_side. encode_side order max_len id_side (stitch ! id_side))
                             [0..<length stitch]))
               sts)"

text \<open>The 2-by-S array: zero where no stitch side was written.\<close>

definition stitch_index_array :: "int list list \<Rightarrow> nat \<Rightarrow> int list list" where
  "stitch_index_array ids stitches_num =
     map (\<lambda>id_side.
            map (\<lambda>idx. if idx < length ids \<and> id_side < length (ids ! idx)
                        then ids ! idx ! id_side else 0)
              [0..<stitches_num])
       [0..<2]"

text \<open>
  \<^verbatim>\<open>pattern_as_tensors\<close> with \<^verbatim>\<open>with_stitches=True\<close>: the panel tensor, the edge counts,
  the number of panels, the 2-by-S array of pattern-level edge ids and the number of
  stitches.
\<close>

definition pattern_as_tensors ::
  "(vertex2 list \<Rightarrow> edge_rec \<Rightarrow> py_error + edge_row) \<Rightarrow> nat option \<Rightarrow> nat option \<Rightarrow> nat option
     \<Rightarrow> pattern \<Rightarrow> py_error + (edge_row list list \<times> nat list \<times> nat \<times> int list list \<times> nat)" where
  "pattern_as_tensors edge_as_vector pad_panels_to_len pad_panels_num pad_stitches_num pat =
     (let order = panel_order_of pat
      in then_do (panel_lens_of pat order) (\<lambda>panel_lens.
         then_do (choose_max_len pad_panels_to_len panel_lens) (\<lambda>max_len.
         then_do (in_order (map (\<lambda>nm. panel_as_numeric edge_as_vector pat nm (Some max_len)) order))
           (\<lambda>seqs.
         then_do (pad_panel_list pad_panels_num seqs panel_lens) (\<lambda>(panel_seqs, lens).
           (let stitches_num = (case pad_stitches_num of
                                  None \<Rightarrow> length (stitches pat) | Some n \<Rightarrow> n)
            in if stitches_num < length (stitches pat) then Inl ValueError
               else then_do (encode_stitches order max_len (stitches pat)) (\<lambda>ids.
                    then_do (np_stack panel_seqs) (\<lambda>t.
                      Inr (t, lens, length (panels pat),
                           stitch_index_array ids stitches_num, length (stitches pat))))))))))"

text \<open>
  For the statements below: the slots of a tensor that the decoder keeps (those with at
  least three rows left after stripping), counted from \<open>idx\<close>, and the sum of the
  displacements of a list of rows.
\<close>

fun kept_slots :: "nat \<Rightarrow> edge_row list list \<Rightarrow> nat list" where
  "kept_slots idx [] = []"
| "kept_slots idx (rep # rest) =
     (if 3 \<le> length (strip_padding rep) then idx # kept_slots (Suc idx) rest
      else kept_slots (Suc idx) rest)"

definition displacement_sum :: "edge_row list \<Rightarrow> vertex2" where
  "displacement_sum rows =
     (sum_list (map (\<lambda>r. fst (row_shift r)) rows), sum_list (map (\<lambda>r. snd (row_shift r)) rows))"

text \<open>Patterns to run the model on: a square panel of side 10 and a triangle of side 1.\<close>

definition square_panel :: panel_rec where
  "square_panel =
     \<lparr>vertices = [(0, 0), (10, 0), (10, 10), (0, 10)],
      edges = [\<lparr>endpoints = (0, 1), curvature = None\<rparr>, \<lparr>endpoints = (1, 2), curvature = None\<rparr>,
               \<lparr>endpoints = (2, 3), curvature = None\<rparr>, \<lparr>endpoints = (3, 0), curvature = None\<rparr>]\<rparr>"

definition small_panel :: panel_rec where
  "small_panel =
     \<lparr>vertices = [(0, 0), (1, 0), (0, 1)],
      edges = [\<lparr>endpoints = (0, 1), curvature = None\<rparr>, \<lparr>endpoints = (1, 2), curvature = None\<rparr>,
               \<lparr>endpoints = (2, 0), curvature = None\<rparr>]\<rparr>"

definition two_squares :: pattern where
  "two_squares =
     \<lparr>panels = [(''A'', square_panel), (''B'', square_panel)], panel_order = Some [''A'', ''B''],
      stitches = [[\<lparr>panel = ''A'', edge = 0\<rparr>, \<lparr>panel = ''B'', edge = 2\<rparr>]], warnings = []\<rparr>"

definition small_and_square :: pattern where
  "small_and_square =
     \<lparr>panels = [(''A'', small_panel), (''B'', square_panel)], panel_order = Some [''A'', ''B''],
      stitches = [[\<lparr>panel = ''A'', edge = 0\<rparr>, \<lparr>panel = ''B'', edge = 2\<rparr>]], warnings = []\<rparr>"

definition empty_pattern :: pattern where
  "empty_pattern = \<lparr>panels = [], panel_order = None, stitches = [], warnings = []\<rparr>"

section \<open>Normalisation statistics: the scale is never zero\<close>

lemma foldl_min_Min: "foldl min (x :: rat) xs = Min (set (x # xs))"
proof (induction xs arbitrary: x)
  case Nil
  show ?case by simp
next
  case (Cons y ys)
  have "foldl min x (y # ys) = foldl min (min x y) ys" by simp
  also have "\<dots> = Min (set (min x y # ys))" by (rule Cons.IH)
  also have "\<dots> = Min (set (x # y # ys))"
    by (cases ys) (simp_all add: min.assoc)
  finally show ?case .
qed

lemma col_min_nth:
  assumes "rows \<noteq> []" and "j < length (hd rows)"
  shows "col_min rows ! j = Min ((\<lambda>r. r ! j) ` set rows)"
proof -
  obtain r rs where rows: "rows = r # rs"
    using assms(1) by (cases rows) auto
  have "col_min rows ! j = foldl min (hd (column rows j)) (tl (column rows j))"
    using assms(2) by (simp add: col_min_def)
  also have "\<dots> = Min (set (column rows j))"
    by (simp add: rows column_def foldl_min_Min)
  also have "set (column rows j) = (\<lambda>r. r ! j) ` set rows"
    by (simp add: column_def)
  finally show ?thesis .
qed

lemma foldl_max_Max: "foldl max (x :: rat) xs = Max (set (x # xs))"
proof (induction xs arbitrary: x)
  case Nil
  show ?case by simp
next
  case (Cons y ys)
  have "foldl max x (y # ys) = foldl max (max x y) ys" by simp
  also have "\<dots> = Max (set (max x y # ys))" by (rule Cons.IH)
  also have "\<dots> = Max (set (x # y # ys))"
    by (cases ys) (simp_all add: max.assoc)
  finally show ?case .
qed

lemma col_max_nth:
  assumes "rows \<noteq> []" and "j < length (hd rows)"
  shows "col_max rows ! j = Max ((\<lambda>r. r ! j) ` set rows)"
proof -
  obtain r rs where rows: "rows = r # rs"
    using assms(1) by (cases rows) auto
  have "col_max rows ! j = foldl max (hd (column rows j)) (tl (column rows j))"
    using assms(2) by (simp add: col_max_def)
  also have "\<dots> = Max (set (column rows j))"
    by (simp add: rows column_def foldl_max_Max)
  also have "set (column rows j) = (\<lambda>r. r ! j) ` set rows"
    by (simp add: column_def)
  finally show ?thesis .
qed

lemma scale_entry_nonzero: "scale_entry tmin tmax \<noteq> 0"
proof (cases "isclose tmin tmax rtol_default atol_default")
  case True
  show ?thesis
  proof (cases "isclose tmin 0 rtol_default atol_default")
    case True
    with \<open>isclose tmin tmax rtol_default atol_default\<close> show ?thesis
      by (simp add: scale_entry_def)
  next
    case False
    then have "tmin \<noteq> 0"
      by (auto simp: isclose_def atol_default_def)
    with False \<open>isclose tmin tmax rtol_default atol_default\<close> show ?thesis
      by (simp add: scale_entry_def)
  qed
next
  case False
  then have "tmin \<noteq> tmax"
    by (auto simp: isclose_def atol_default_def rtol_default_def)
  with False show ?thesis
    by (simp add: scale_entry_def)
qed

text \<open>
  C7. On every batch that keeps at least one row, \<^verbatim>\<open>_get_norm_stats\<close> returns a shift and
  a scale of the width of the batch. The shift is the minimum of each column. Each
  component of the scale is nonzero: it is the maximum of the column minus its minimum
  where the two are not close (the test of the code, \<^verbatim>\<open>torch.isclose\<close> with its default
  tolerances), otherwise the minimum when the minimum is not close to zero, otherwise
  exactly 1.
\<close>

theorem get_norm_stats_scale_nonzero:
  assumes "(if padded then unpad input_batch (1 / 100000) else input_batch) = batch"
    and "batch \<noteq> []"
  shows "\<exists>shift scale. get_norm_stats input_batch padded = Inr (shift, scale)
     \<and> length shift = length (hd batch) \<and> length scale = length (hd batch)
     \<and> (\<forall>j < length (hd batch).
           shift ! j = Min ((\<lambda>r. r ! j) ` set batch)
         \<and> scale ! j \<noteq> 0
         \<and> scale ! j =
             (if \<not> isclose (Min ((\<lambda>r. r ! j) ` set batch)) (Max ((\<lambda>r. r ! j) ` set batch))
                     rtol_default atol_default
              then Max ((\<lambda>r. r ! j) ` set batch) - Min ((\<lambda>r. r ! j) ` set batch)
              else if \<not> isclose (Min ((\<lambda>r. r ! j) ` set batch)) 0 rtol_default atol_default
              then Min ((\<lambda>r. r ! j) ` set batch)
              else 1))"
proof -
  let ?scale = "map (\<lambda>(tmin, tmax). scale_entry tmin tmax) (zip (col_min batch) (col_max batch))"
  have res: "get_norm_stats input_batch padded = Inr (col_min batch, ?scale)"
    using assms by (simp add: get_norm_stats_def Let_def)
  have len_min: "length (col_min batch) = length (hd batch)"
    by (simp add: col_min_def)
  have len_max: "length (col_max batch) = length (hd batch)"
    by (simp add: col_max_def)
  have len_scale: "length ?scale = length (hd batch)"
    by (simp add: len_min len_max)
  have entry: "?scale ! j = scale_entry (col_min batch ! j) (col_max batch ! j)"
    if "j < length (hd batch)" for j
    using that by (simp add: len_min len_max)
  have each: "col_min batch ! j = Min ((\<lambda>r. r ! j) ` set batch)
      \<and> ?scale ! j \<noteq> 0
      \<and> ?scale ! j =
             (if \<not> isclose (Min ((\<lambda>r. r ! j) ` set batch)) (Max ((\<lambda>r. r ! j) ` set batch))
                     rtol_default atol_default
              then Max ((\<lambda>r. r ! j) ` set batch) - Min ((\<lambda>r. r ! j) ` set batch)
              else if \<not> isclose (Min ((\<lambda>r. r ! j) ` set batch)) 0 rtol_default atol_default
              then Min ((\<lambda>r. r ! j) ` set batch)
              else 1)"
    if j: "j < length (hd batch)" for j
  proof -
    have mn: "col_min batch ! j = Min ((\<lambda>r. r ! j) ` set batch)"
      using assms(2) j by (rule col_min_nth)
    have mx: "col_max batch ! j = Max ((\<lambda>r. r ! j) ` set batch)"
      using assms(2) j by (rule col_max_nth)
    have nz: "?scale ! j \<noteq> 0"
      by (subst entry [OF j]) (rule scale_entry_nonzero)
    have "?scale ! j = scale_entry (Min ((\<lambda>r. r ! j) ` set batch)) (Max ((\<lambda>r. r ! j) ` set batch))"
      by (simp only: entry [OF j] mn mx)
    then have "?scale ! j =
             (if \<not> isclose (Min ((\<lambda>r. r ! j) ` set batch)) (Max ((\<lambda>r. r ! j) ` set batch))
                     rtol_default atol_default
              then Max ((\<lambda>r. r ! j) ` set batch) - Min ((\<lambda>r. r ! j) ` set batch)
              else if \<not> isclose (Min ((\<lambda>r. r ! j) ` set batch)) 0 rtol_default atol_default
              then Min ((\<lambda>r. r ! j) ` set batch)
              else 1)"
      by (simp only: scale_entry_def) simp
    with mn nz show ?thesis by blast
  qed
  show ?thesis
    using res len_min len_scale each by blast
qed

theorem get_norm_stats_scale_nonzero_witness:
  "get_norm_stats [[2, 9, 0], [2, 7, 0]] False = Inr ([2, 7, 0], [2, 2, 1])"
proof -
  have b: "(if False then unpad [[2, 9, 0], [2, 7, 0]] (1 / 100000) else [[2, 9, 0], [2, 7, 0]])
      = [[2, 9, 0], [2, 7, 0 :: rat]]"
    by simp
  have ne: "[[2, 9, 0], [2, 7, 0 :: rat]] \<noteq> []" by simp
  from get_norm_stats_scale_nonzero [OF b ne]
  show ?thesis
    by (simp add: get_norm_stats_def col_min_def col_max_def column_def scale_entry_def
        isclose_def rtol_default_def atol_default_def upt_rec)
qed

section \<open>Splits: reproducibility and the seed of \<^verbatim>\<open>new_split\<close>\<close>

lemma py_int_of_int: "py_int (of_int s) = s"
  by (simp add: py_int_def)

lemma map_of_dict_set: "map_of (dict_set k v d) k' = (if k' = k then Some v else map_of d k')"
  by (induction d) auto




lemma partition_split_keeps:
  assumes "partition_split T w = Inr w'"
  shows "split_info w' = split_info w \<and> dataset_len w' = dataset_len w \<and> batch_size w' = batch_size w"
  using assms unfolding partition_split_def
  by (simp add: Let_def split: sum.splits option.splits prod.splits if_splits) auto


lemma new_loaders_keeps:
  assumes "new_loaders T None sh w = Inr w'"
  shows "split_info w' = split_info w \<and> dataset_len w' = dataset_len w \<and> batch_size w' = batch_size w
     \<and> split_view w' = split_view w"
  using assms unfolding new_loaders_def set_batch_size_def
  by (simp add: Let_def split_view_def split: sum.splits option.splits) auto





lemma set_batch_size_fields:
  "split_info (set_batch_size b w) = split_info w"
  "dataset_len (set_batch_size b w) = dataset_len w"
  "split_view (set_batch_size b w) = split_view w"
  "training (set_batch_size b w) = training w"
  "validation (set_batch_size b w) = validation w"
  "test (set_batch_size b w) = test w"
  by (simp_all add: set_batch_size_def split_view_def split: option.split)

lemma set_batch_size_batch:
  "batch_size (set_batch_size b w) = (case b of Some x \<Rightarrow> Some x | None \<Rightarrow> batch_size w)"
  by (simp add: set_batch_size_def split: option.split)


lemma refresh_loaders_post:
  assumes "refresh_loaders T b w = Inr (r, w')"
  shows "split_info w' = split_info w \<and> dataset_len w' = dataset_len w
     \<and> batch_size w' = batch_size (set_batch_size b w) \<and> r = split_view w' \<and> split_view w' = split_view w"
proof (cases "batch_size (set_batch_size b w)")
  case None
  then have "refresh_loaders T b w = Inr (split_view (set_batch_size b w), set_batch_size b w)"
    by (simp add: refresh_loaders_def Let_def split_view_def)
  with assms have "r = split_view (set_batch_size b w)" and "w' = set_batch_size b w"
    by auto
  then show ?thesis by (simp add: set_batch_size_fields)
next
  case (Some x)
  then have f: "refresh_loaders T b w =
      (case new_loaders T None True (set_batch_size b w) of
         Inl e \<Rightarrow> Inl e | Inr w4 \<Rightarrow> Inr (split_view w4, w4))"
    by (simp add: refresh_loaders_def Let_def split_view_def)
  show ?thesis
  proof (cases "new_loaders T None True (set_batch_size b w)")
    case (Inl e)
    with f assms show ?thesis by simp
  next
    case (Inr w4)
    with f assms have eq: "r = split_view w4" "w' = w4" by simp_all
    have k: "split_info w4 = split_info w" "dataset_len w4 = dataset_len w"
      "batch_size w4 = batch_size (set_batch_size b w)" "split_view w4 = split_view w"
      using new_loaders_keeps [OF Inr] by (simp_all add: set_batch_size_fields)
    show ?thesis unfolding eq using k by simp
  qed
qed

lemma load_split_None:
  "load_split T None b w =
     (case partition_split T w of Inl e \<Rightarrow> Inl e | Inr w2 \<Rightarrow> refresh_loaders T b w2)"
  by (simp add: load_split_def)


lemma load_split_None_post:
  assumes "load_split T None b w = Inr (r, w')"
  shows "split_info w' = split_info w \<and> dataset_len w' = dataset_len w
     \<and> batch_size w' = batch_size (set_batch_size b w) \<and> r = split_view w'"
proof -
  from assms obtain w2 where p: "partition_split T w = Inr w2"
    and f: "refresh_loaders T b w2 = Inr (r, w')"
    by (cases "partition_split T w") (simp_all add: load_split_None)
  show ?thesis
    using refresh_loaders_post [OF f] partition_split_keeps [OF p]
    by (cases b) (simp_all add: set_batch_size_batch)
qed






lemma new_split_unfold:
  "new_split T now vp tp rs w =
     load_split T None None (w\<lparr>split_info :=
        dict_set ''test_percent'' (case tp of None \<Rightarrow> PNone | Some t \<Rightarrow> PNum t)
          (dict_set ''valid_percent'' (PNum vp)
            (dict_set ''random_seed''
               (PNum (of_int (case rs of None \<Rightarrow> now | Some s \<Rightarrow> if s \<noteq> 0 then s else now)))
               (split_info w)))\<rparr>)"
  by (simp add: new_split_def Let_def)






text \<open>
  C10. \<^verbatim>\<open>new_split\<close> with \<^verbatim>\<open>random_seed = 0\<close> does exactly what it does without a seed:
  the seed that is stored, and that the generator is seeded with, is the value of the
  clock, not the requested 0.
\<close>

theorem new_split_seed_zero:
  "new_split T now vp tp (Some 0) w = new_split T now vp tp None w
   \<and> (new_split T now vp tp (Some 0) w = Inr (r, w')
        \<longrightarrow> map_of (split_info w') ''random_seed'' = Some (PNum (of_int now)))"
proof (intro conjI impI)
  show "new_split T now vp tp (Some 0) w = new_split T now vp tp None w"
    by (simp add: new_split_def)
next
  assume h: "new_split T now vp tp (Some 0) w = Inr (r, w')"
  then have "split_info w' =
    dict_set ''test_percent'' (case tp of None \<Rightarrow> PNone | Some t \<Rightarrow> PNum t)
      (dict_set ''valid_percent'' (PNum vp)
        (dict_set ''random_seed'' (PNum (of_int now)) (split_info w)))"
    using load_split_None_post [of T None _ r w'] by (simp add: new_split_unfold)
  then show "map_of (split_info w') ''random_seed'' = Some (PNum (of_int now))"
    by (simp add: map_of_dict_set)
qed

theorem new_split_seed_zero_witness:
  "new_split toy_torch 1700000000 10 (Some 10) (Some 0) (init_wrapper 10 0)
     = new_split toy_torch 1700000000 10 (Some 10) None (init_wrapper 10 0)
   \<and> (\<exists>r w'. new_split toy_torch 1700000000 10 (Some 10) (Some 0) (init_wrapper 10 0) = Inr (r, w')
        \<and> map_of (split_info w') ''random_seed'' = Some (PNum 1700000000))"
proof -
  let ?r = "([6, 7, 8, 9, 0, 1, 2, 3], Some [4], Some [5]) :: split_result"
  let ?w = "\<lparr>dataset_len = 10, training = [6, 7, 8, 9, 0, 1, 2, 3],
         validation = Some [4], test = Some [5], batch_size = None,
         loader_full = None, loader_train = None, loader_validation = None,
         loader_test = None,
         split_info =
           [(''random_seed'', PNum 1700000000), (''valid_percent'', PNum 10),
            (''test_percent'', PNum 10)],
         generator = 1700000001\<rparr> :: (int, nat list \<times> nat \<times> bool) wrapper"
  have e: "new_split toy_torch 1700000000 10 (Some 10) (Some 0) (init_wrapper 10 0) = Inr (?r, ?w)"
    by code_simp
  note t = new_split_seed_zero [where T = toy_torch and now = 1700000000 and vp = 10
      and tp = "Some 10" and w = "init_wrapper 10 0" and r = ?r and w' = ?w]
  from t have same: "new_split toy_torch 1700000000 10 (Some 10) (Some 0) (init_wrapper 10 0)
     = new_split toy_torch 1700000000 10 (Some 10) None (init_wrapper 10 0)"
    by (rule conjunct1)
  from t e have "map_of (split_info ?w) ''random_seed'' = Some (PNum 1700000000)"
    by simp
  with e same show ?thesis by blast
qed

lemma new_split_seed_zero_depends_on_clock:
  "map_sum id fst (new_split toy_torch 1700000000 10 (Some 10) (Some 0) (init_wrapper 10 0))
     = Inr ([6, 7, 8, 9, 0, 1, 2, 3], Some [4], Some [5])
   \<and> map_sum id fst (new_split toy_torch 1700000001 10 (Some 10) (Some 0) (init_wrapper 10 0))
     = Inr ([7, 8, 9, 0, 1, 2, 3, 4], Some [5], Some [6])"
  by code_simp

section \<open>SampleToTensor: the ground truth of a sample without a dictionary\<close>

lemma SampleToTensor_features:
  "features (SampleToTensor smp)
     = (case features smp of Some a \<Rightarrow> from_numpy_float a | None \<Rightarrow> Tensor [])"
  by (simp add: SampleToTensor_def Let_def)

lemma SampleToTensor_name: "name (SampleToTensor smp) = name smp"
  by (simp add: SampleToTensor_def Let_def)

lemma SampleToTensor_dict:
  "ground_truth smp = GtDict d \<Longrightarrow>
     ground_truth (SampleToTensor smp) = AsDict (dict_to_tensors d)
     \<and> map fst (dict_to_tensors d) = map fst d"
  by (simp add: SampleToTensor_def Let_def dict_to_tensors_def split_def)

lemma SampleToTensor_never_tensor: "ground_truth (SampleToTensor smp) \<noteq> AsTensor t"
  by (simp add: SampleToTensor_def Let_def split: ground_truth_in.split)

text \<open>
  C9. The features, the name and a dictionary ground truth are converted as stated. A
  ground truth that is an array, or absent, is not: on the sample with features \<open>[1]\<close>,
  ground truth \<open>[2]\<close> and name \<open>a\<close> the transform stores a tuple holding the tensor
  \<open>[2]\<close> where the tensor itself is expected, and on an absent ground truth a tuple
  holding the empty tensor.
\<close>

theorem SampleToTensor_ground_truth_is_tuple:
  "SampleToTensor \<lparr>features = Some (NDArray [1]), ground_truth = GtArray (NDArray [2]), name = ''a''\<rparr>
     = \<lparr>features = Tensor [1], ground_truth = AsTuple [Tensor [2]], name = ''a''\<rparr>
   \<and> ground_truth (SampleToTensor \<lparr>features = None, ground_truth = GtNone, name = ''b''\<rparr>)
     = AsTuple [Tensor []]"
  by (simp add: SampleToTensor_def from_numpy_float_def)

section \<open>is\_static: counting the vertices that moved\<close>

lemma diff_L1_same_length:
  assumes "length cur = length prev"
  shows "diff_L1 cur prev = Inr (map (\<lambda>i. l1_row (cur ! i) (prev ! i)) [0..<length cur])"
proof -
  have "map (\<lambda>(c, l). l1_row c l) (zip cur prev)
      = map (\<lambda>i. l1_row (cur ! i) (prev ! i)) [0..<length cur]"
    using assms by (intro nth_equalityI) simp_all
  with assms show ?thesis by (simp add: diff_L1_def)
qed

lemma is_static_two_snapshots:
  assumes "loaded_to_maya g" and "last_verts g = Some prev" and "current_verts g = Some cur"
    and "length cur = length prev"
    and "n = length (filter (\<lambda>i. l1_row (cur ! i) (prev ! i) > threshold) [0..<length cur])"
  shows "is_static threshold p g =
     Inr (BoolCount (n = 0 \<or> of_nat n < of_nat (length cur) * (1 / 100) * p) n)"
proof -
  have len: "length (filter (\<lambda>x. x > threshold) (map (\<lambda>i. l1_row (cur ! i) (prev ! i)) [0..<length cur])) = n"
    unfolding assms(5) filter_map length_map comp_def ..
  have "is_static threshold p g =
      (let non_static_len = length (filter (\<lambda>x. x > threshold)
              (map (\<lambda>i. l1_row (cur ! i) (prev ! i)) [0..<length cur]))
       in if non_static_len = 0 \<or> of_nat non_static_len < of_nat (length cur) * (1 / 100) * p
          then Inr (BoolCount True non_static_len)
          else Inr (BoolCount False non_static_len))"
    using assms(1-3) by (simp add: is_static_def diff_L1_same_length [OF assms(4)])
  then show ?thesis
    unfolding len Let_def by (simp split: if_splits)
qed

text \<open>
  C8. With two snapshots \<^verbatim>\<open>is_static\<close> returns the pair of the claim
  (\<open>is_static_two_snapshots\<close>). On the first call it does not: for a loaded garment whose
  vertices were read once, so that no earlier snapshot exists, the result is the bare
  boolean \<open>False\<close> and no pair.
\<close>

theorem is_static_first_call_is_bare_boolean:
  "update_verts_info [(0, 0, 0), (1, 0, 0)]
      \<lparr>loaded_to_maya = True, last_verts = None, current_verts = None\<rparr>
     = Inr \<lparr>loaded_to_maya = True, last_verts = None, current_verts = Some [(0, 0, 0), (1, 0, 0)]\<rparr>
   \<and> is_static (1 / 10) 0
        \<lparr>loaded_to_maya = True, last_verts = None, current_verts = Some [(0, 0, 0), (1, 0, 0)]\<rparr>
     = Inr (JustBool False)"
  by (simp add: update_verts_info_def is_static_def)

section \<open>tags\_to\_stitches: the tolerances are relative\<close>

lemma all_isclose_zero_iff:
  "all_isclose tag (replicate (length tag) 0) rtol = list_all (\<lambda>x. \<bar>x\<bar> \<le> atol_default) tag"
proof (induction tag)
  case Nil
  show ?case by (simp add: all_isclose_def)
next
  case (Cons x xs)
  then show ?case by (simp add: all_isclose_def isclose_def)
qed

text \<open>
  C2. The code passes 0.01 and 0.1 as the relative tolerance of \<^verbatim>\<open>torch.isclose\<close>.
  Against the zero tag a relative tolerance contributes nothing
  (\<open>all_isclose_zero_iff\<close>), so two edges with the tag (0.005, 0.005, 0.005) are both
  kept as candidates and reported as a stitch, where the rule of the claim discards
  them; and the tags (0.3, 1, 1) and (0.35, 1, 1), which agree within 0.1, are not
  reported, since 0.05 exceeds a tenth of 0.35.
\<close>

theorem tags_to_stitches_relative_tolerance:
  "tags_to_stitches [[[1 / 200, 1 / 200, 1 / 200], [1 / 200, 1 / 200, 1 / 200]]] = [((0, 0), (0, 1))]
   \<and> spec_tags_to_stitches [[[1 / 200, 1 / 200, 1 / 200], [1 / 200, 1 / 200, 1 / 200]]] = []
   \<and> tags_to_stitches [[[3 / 10, 1, 1], [7 / 20, 1, 1]]] = []
   \<and> spec_tags_to_stitches [[[3 / 10, 1, 1], [7 / 20, 1, 1]]] = [((0, 0), (0, 1))]"
  by code_simp

section \<open>standardize: stored statistics are not recomputed\<close>

lemma choose_stats_stored:
  "map_of (config d) ''standardize'' = Some v \<Longrightarrow> choose_stats compute train d = Inr (v, d)"
  by (simp add: choose_stats_def)

lemma panel_standardize_config:
  "choose_stats compute train d = Inr (v, d1) \<Longrightarrow>
     config (snd (panel_standardize compute train d)) = config d1"
  by (simp add: panel_standardize_def Let_def split: sum.split)

lemma full_standardize_config:
  "choose_stats compute train d = Inr (v, d1) \<Longrightarrow>
     config (snd (full_standardize compute train d)) = config d1"
  by (simp add: full_standardize_def Let_def split: sum.split)

text \<open>
  C6. When the configuration already has an entry \<^verbatim>\<open>'standardize'\<close>, both \<^verbatim>\<open>standardize\<close>
  methods leave the configuration as it is, whether they return or raise, and do the same
  whatever training subset is passed and whatever statistics it would give: nothing is
  recomputed. With stored arrays \<^verbatim>\<open>shift\<close> and \<^verbatim>\<open>scale\<close> the panel dataset installs the
  transform built from exactly these.
\<close>

theorem standardize_keeps_stored_stats:
  assumes "map_of (config d) ''standardize'' = Some v"
  shows "config (snd (panel_standardize compute train d)) = config d
     \<and> config (snd (full_standardize compute train d)) = config d
     \<and> panel_standardize compute train d = panel_standardize compute' train' d
     \<and> full_standardize compute train d = full_standardize compute' train' d
     \<and> (stats_get v ''shift'' = Inr (StatArray sh) \<and> stats_get v ''scale'' = Inr (StatArray sc)
          \<longrightarrow> panel_standardize compute train d =
                (None, d\<lparr>transforms :=
                    filter (\<lambda>t. \<not> is_FeatureStandartization t) (transforms d)
                      @ [FeatureStandartization sh sc]\<rparr>))"
proof -
  have c: "choose_stats compute train d = Inr (v, d)"
     "choose_stats compute' train' d = Inr (v, d)"
    using assms by (simp_all add: choose_stats_stored)
  have 1: "config (snd (panel_standardize compute train d)) = config d"
    by (rule panel_standardize_config [OF c(1)])
  have 2: "config (snd (full_standardize compute train d)) = config d"
    by (rule full_standardize_config [OF c(1)])
  have 3: "panel_standardize compute train d = panel_standardize compute' train' d"
    by (simp add: panel_standardize_def c)
  have 4: "full_standardize compute train d = full_standardize compute' train' d"
    by (simp add: full_standardize_def c)
  have 5: "panel_standardize compute train d =
                (None, d\<lparr>transforms :=
                    filter (\<lambda>t. \<not> is_FeatureStandartization t) (transforms d)
                      @ [FeatureStandartization sh sc]\<rparr>)"
    if "stats_get v ''shift'' = Inr (StatArray sh) \<and> stats_get v ''scale'' = Inr (StatArray sc)"
    using that by (simp add: panel_standardize_def c new_FeatureStandartization_def Let_def)
  from 1 2 3 4 5 show ?thesis by blast
qed

theorem standardize_keeps_stored_stats_witness:
  "panel_standardize (\<lambda>t :: unit. Inr [(''shift'', StatArray [7]), (''scale'', StatArray [8])]) (Some ())
      \<lparr>config = [(''panel_name'', ConfStr ''front''),
                 (''standardize'', ConfStats [(''shift'', StatArray [0, 0, 1, 2]),
                                              (''scale'', StatArray [3, 4, 5, 6])])],
       transforms = [ToTensorTransform, FeatureStandartization [9] [9]]\<rparr>
   = (None,
      \<lparr>config = [(''panel_name'', ConfStr ''front''),
                 (''standardize'', ConfStats [(''shift'', StatArray [0, 0, 1, 2]),
                                              (''scale'', StatArray [3, 4, 5, 6])])],
       transforms = [ToTensorTransform, FeatureStandartization [0, 0, 1, 2] [3, 4, 5, 6]]\<rparr>)"
proof -
  let ?v = "ConfStats [(''shift'', StatArray [0, 0, 1, 2]), (''scale'', StatArray [3, 4, 5, 6])]"
  let ?d = "\<lparr>config = [(''panel_name'', ConfStr ''front''), (''standardize'', ?v)],
       transforms = [ToTensorTransform, FeatureStandartization [9] [9]]\<rparr>"
  have stored: "map_of (config ?d) ''standardize'' = Some ?v"
    by simp
  have keys: "stats_get ?v ''shift'' = Inr (StatArray [0, 0, 1, 2])
      \<and> stats_get ?v ''scale'' = Inr (StatArray [3, 4, 5, 6])"
    by (simp add: stats_get_def)
  note t = standardize_keeps_stored_stats [OF stored,
      where compute = "\<lambda>t :: unit. Inr [(''shift'', StatArray [7]), (''scale'', StatArray [8])]"
        and train = "Some ()" and sh = "[0, 0, 1, 2]" and sc = "[3, 4, 5, 6]"]
  from t have "stats_get ?v ''shift'' = Inr (StatArray [0, 0, 1, 2])
      \<and> stats_get ?v ''scale'' = Inr (StatArray [3, 4, 5, 6])
    \<longrightarrow> panel_standardize (\<lambda>t :: unit. Inr [(''shift'', StatArray [7]), (''scale'', StatArray [8])])
          (Some ()) ?d
        = (None, ?d\<lparr>transforms :=
              filter (\<lambda>t. \<not> is_FeatureStandartization t) (transforms ?d)
                @ [FeatureStandartization [0, 0, 1, 2] [3, 4, 5, 6]]\<rparr>)"
    by blast
  with keys have "panel_standardize (\<lambda>t :: unit. Inr [(''shift'', StatArray [7]), (''scale'', StatArray [8])])
          (Some ()) ?d
        = (None, ?d\<lparr>transforms :=
              filter (\<lambda>t. \<not> is_FeatureStandartization t) (transforms ?d)
                @ [FeatureStandartization [0, 0, 1, 2] [3, 4, 5, 6]]\<rparr>)"
    by blast
  then show ?thesis
    by (simp add: is_FeatureStandartization_def)
qed

section \<open>Decoding panels: padding, empty panels and the closing edge\<close>

lemma isclose_zero: "isclose x 0 rtol tol = (\<bar>x\<bar> \<le> tol)"
  by (simp add: isclose_def)

lemma digit_inj:
  assumes "a < 10" and "b < 10" and "''0123456789'' ! a = ''0123456789'' ! b"
  shows "a = b"
proof -
  have d: "distinct ''0123456789''" by simp
  have "a < length ''0123456789''" "b < length ''0123456789''"
    using assms by simp_all
  with d assms(3) show ?thesis
    by (simp only: nth_eq_iff_index_eq)
qed

lemma str_nat_nonempty: "str_nat n \<noteq> []"
  by (subst str_nat.simps) simp

lemma str_nat_inj: "str_nat n = str_nat m \<Longrightarrow> n = m"
proof (induction n arbitrary: m rule: str_nat.induct)
  case (1 n)
  show ?case
  proof (cases "n < 10")
    case small: True
    show ?thesis
    proof (cases "m < 10")
      case True
      with small "1.prems" show ?thesis
        by (subst (asm) str_nat.simps, subst (asm) (2) str_nat.simps) (auto dest: digit_inj)
    next
      case False
      have "length (str_nat m) \<ge> 2"
        using False str_nat_nonempty [of "m div 10"]
        by (subst str_nat.simps) (cases "str_nat (m div 10)"; simp)
      moreover have "length (str_nat n) = 1"
        using small by (subst str_nat.simps) simp
      ultimately show ?thesis using "1.prems" by simp
    qed
  next
    case big: False
    show ?thesis
    proof (cases "m < 10")
      case True
      have "length (str_nat n) \<ge> 2"
        using big str_nat_nonempty [of "n div 10"]
        by (subst str_nat.simps) (cases "str_nat (n div 10)"; simp)
      moreover have "length (str_nat m) = 1"
        using True by (subst str_nat.simps) simp
      ultimately show ?thesis using "1.prems" by simp
    next
      case False
      have n: "str_nat n = str_nat (n div 10) @ [''0123456789'' ! (n mod 10)]"
        using big by (subst str_nat.simps) simp
      have m: "str_nat m = str_nat (m div 10) @ [''0123456789'' ! (m mod 10)]"
        using False by (subst str_nat.simps) simp
      from "1.prems" n m have a: "str_nat (n div 10) = str_nat (m div 10)"
        and b: "''0123456789'' ! (n mod 10) = ''0123456789'' ! (m mod 10)"
        by simp_all
      from "1.IH" [OF big a] have "n div 10 = m div 10" .
      moreover from b have "n mod 10 = m mod 10"
        by (intro digit_inj) simp_all
      ultimately show ?thesis
        by (metis div_mult_mod_eq)
    qed
  qed
qed

lemma slot_name_inj: "slot_name i = slot_name j \<Longrightarrow> i = j"
  by (simp add: slot_name_def str_nat_inj)


lemma map_fst_dict_set:
  "map fst (dict_set k v d) = (if k \<in> set (map fst d) then map fst d else map fst d @ [k])"
  by (induction d) (force simp: image_iff)+

lemma panel_from_numeric_padded_empty:
  "length (strip_padding es) < 3 \<Longrightarrow> panel_from_numeric nm es True pat = Inl EmptyPanelError"
  by (simp add: panel_from_numeric_def)

lemma panel_from_numeric_result:
  assumes "seq = (if padded then strip_padding es else es)" and "seq \<noteq> []"
    and "padded \<longrightarrow> 3 \<le> length seq"
  shows "\<exists>P w. panel_from_numeric nm es padded pat
           = Inr (pat\<lparr>panels := dict_set nm P (panels pat), warnings := w\<rparr>)"
proof -
  have g1: "(if padded then strip_padding es else es) = seq"
    using assms(1) by simp
  have g2: "\<not> (padded \<and> length seq < 3)"
    using assms(3) by auto
  obtain vs es' where loop: "edge_loop 0 (butlast seq) ([(0, 0)], []) = (vs, es')"
    by (cases "edge_loop 0 (butlast seq) ([(0, 0)], [])") auto
  let ?fin = "vadd (last vs) (row_shift (last seq))"
  show ?thesis
  proof (cases "isclose (fst ?fin) 0 rtol_default 3 \<and> isclose (snd ?fin) 0 rtol_default 3")
    case True
    have "panel_from_numeric nm es padded pat
        = Inr (pat\<lparr>panels := dict_set nm
              \<lparr>vertices = vs, edges = es' @ [edge_dict (length vs - 1) 0 (row_curvature (last seq))]\<rparr>
              (panels pat), warnings := warnings pat\<rparr>)"
      unfolding panel_from_numeric_def Let_def g1
      using assms(2) g2 True loop by simp
    then show ?thesis by blast
  next
    case False
    have "panel_from_numeric nm es padded pat
        = Inr (pat\<lparr>panels := dict_set nm
              \<lparr>vertices = vs @ [?fin],
               edges = es' @ [edge_dict (length vs - 1) (length vs - 1 + 1) (row_curvature (last seq))]\<rparr>
              (panels pat), warnings := warnings pat @ [NoReturnToOrigin nm]\<rparr>)"
      unfolding panel_from_numeric_def Let_def g1
      using assms(2) g2 False loop by auto
    then show ?thesis by blast
  qed
qed

lemma panel_slots_padded:
  assumes "set (map fst (panels pat)) \<subseteq> slot_name ` {..<idx}"
  shows "\<exists>pat'. panel_slots idx reps True (pat, order)
            = Inr (pat', order @ map slot_name (kept_slots idx reps))
          \<and> panel_order pat' = panel_order pat \<and> stitches pat' = stitches pat
          \<and> map fst (panels pat') = map fst (panels pat) @ map slot_name (kept_slots idx reps)"
  using assms
proof (induction reps arbitrary: idx pat order)
  case Nil
  then show ?case by simp
next
  case (Cons rep rest)
  show ?case
  proof (cases "3 \<le> length (strip_padding rep)")
    case False
    then have e: "panel_from_numeric (slot_name idx) rep True pat = Inl EmptyPanelError"
      by (simp add: panel_from_numeric_padded_empty)
    have sub: "set (map fst (panels pat)) \<subseteq> slot_name ` {..<Suc idx}"
      using Cons.prems by auto
    from Cons.IH [OF sub, of order] False e show ?thesis by simp
  next
    case True
    then have ne: "strip_padding rep \<noteq> []" by auto
    have "\<exists>P w. panel_from_numeric (slot_name idx) rep True pat
        = Inr (pat\<lparr>panels := dict_set (slot_name idx) P (panels pat), warnings := w\<rparr>)"
      by (rule panel_from_numeric_result [where seq = "strip_padding rep"]) (use True ne in simp_all)
    then obtain P w where r: "panel_from_numeric (slot_name idx) rep True pat
        = Inr (pat\<lparr>panels := dict_set (slot_name idx) P (panels pat), warnings := w\<rparr>)"
      by blast
    let ?pat1 = "pat\<lparr>panels := dict_set (slot_name idx) P (panels pat), warnings := w\<rparr>"
    have fresh: "slot_name idx \<notin> set (map fst (panels pat))"
    proof
      assume "slot_name idx \<in> set (map fst (panels pat))"
      with Cons.prems obtain j where "j < idx" and "slot_name idx = slot_name j" by auto
      then show False by (auto dest: slot_name_inj)
    qed
    have keys1: "map fst (panels ?pat1) = map fst (panels pat) @ [slot_name idx]"
      using fresh by (simp add: map_fst_dict_set)
    have sub: "set (map fst (panels ?pat1)) \<subseteq> slot_name ` {..<Suc idx}"
      using Cons.prems unfolding keys1 by auto
    from Cons.IH [OF sub, of "order @ [slot_name idx]"]
    obtain pat' where "panel_slots (Suc idx) rest True (?pat1, order @ [slot_name idx])
            = Inr (pat', (order @ [slot_name idx]) @ map slot_name (kept_slots (Suc idx) rest))"
      and "panel_order pat' = panel_order ?pat1" and "stitches pat' = stitches ?pat1"
      and "map fst (panels pat') = map fst (panels ?pat1) @ map slot_name (kept_slots (Suc idx) rest)"
      by blast
    with True r keys1 show ?thesis by simp
  qed
qed

lemma set_kept_slots:
  "set (kept_slots idx reps) = {idx + i | i. i < length reps \<and> 3 \<le> length (strip_padding (reps ! i))}"
proof (induction reps arbitrary: idx)
  case Nil
  show ?case by simp
next
  case (Cons rep rest)
  have split: "{idx + i | i. i < length (rep # rest) \<and> 3 \<le> length (strip_padding ((rep # rest) ! i))}
      = (if 3 \<le> length (strip_padding rep) then {idx} else {})
        \<union> {Suc idx + i | i. i < length rest \<and> 3 \<le> length (strip_padding (rest ! i))}"
    (is "?L = ?R")
  proof (intro set_eqI iffI)
    fix x assume "x \<in> ?L"
    then obtain i where i: "x = idx + i" "i < length (rep # rest)"
      "3 \<le> length (strip_padding ((rep # rest) ! i))" by blast
    show "x \<in> ?R"
    proof (cases i)
      case 0
      with i show ?thesis by simp
    next
      case (Suc k)
      with i have "x = Suc idx + k" "k < length rest" "3 \<le> length (strip_padding (rest ! k))"
        by simp_all
      then show ?thesis by blast
    qed
  next
    fix x assume "x \<in> ?R"
    then consider "x = idx" "3 \<le> length (strip_padding rep)"
      | k where "x = Suc idx + k" "k < length rest" "3 \<le> length (strip_padding (rest ! k))"
      by (auto split: if_splits)
    then show "x \<in> ?L"
    proof cases
      case 1
      then have "x = idx + 0 \<and> 0 < length (rep # rest) \<and> 3 \<le> length (strip_padding ((rep # rest) ! 0))"
        by simp
      then show ?thesis by blast
    next
      case 2
      then have "x = idx + Suc k \<and> Suc k < length (rep # rest)
          \<and> 3 \<le> length (strip_padding ((rep # rest) ! Suc k))"
        by simp
      then show ?thesis by blast
    qed
  qed
  show ?case
    unfolding split using Cons.IH [of "Suc idx"] by simp
qed


lemma strip_padding_tolerance:
  "strip_padding es = filter (\<lambda>(dx, dy, cx, cy).
       \<not> (\<bar>dx\<bar> \<le> 3 / 2 \<and> \<bar>dy\<bar> \<le> 3 / 2 \<and> \<bar>cx\<bar> \<le> 3 / 2 \<and> \<bar>cy\<bar> \<le> 3 / 2)) es"
  unfolding strip_padding_def
  by (rule filter_cong) (auto simp: is_pad_row_def isclose_zero)

lemma strip_padding_all_pad: "list_all (is_pad_row (3 / 2)) es \<Longrightarrow> strip_padding es = []"
  by (simp add: strip_padding_def list_all_iff)

lemma panel_from_numeric_padded_iff:
  "(panel_from_numeric nm es True pat = Inl EmptyPanelError) = (length (strip_padding es) < 3)"
proof
  assume "length (strip_padding es) < 3"
  then show "panel_from_numeric nm es True pat = Inl EmptyPanelError"
    by (rule panel_from_numeric_padded_empty)
next
  assume e: "panel_from_numeric nm es True pat = Inl EmptyPanelError"
  show "length (strip_padding es) < 3"
  proof (rule ccontr)
    assume "\<not> length (strip_padding es) < 3"
    then have three: "3 \<le> length (strip_padding es)" by simp
    then have ne: "strip_padding es \<noteq> []" by auto
    have "\<exists>P w. panel_from_numeric nm es True pat
        = Inr (pat\<lparr>panels := dict_set nm P (panels pat), warnings := w\<rparr>)"
      by (rule panel_from_numeric_result [where seq = "strip_padding es"]) (use three ne in simp_all)
    with e show False by auto
  qed
qed

lemma pattern_from_tensors_panels:
  "\<exists>pat1. panel_slots 0 rep True (pat\<lparr>panels := []\<rparr>, [])
       = Inr (pat1, map slot_name (kept_slots 0 rep))
     \<and> map fst (panels pat1) = map slot_name (kept_slots 0 rep)"
  using panel_slots_padded [of "pat\<lparr>panels := []\<rparr>" 0 rep "[]"] by auto

lemma pattern_from_tensors_no_stitches:
  "\<exists>pat'. pattern_from_tensors rep None True pat = Inr pat'"
  using pattern_from_tensors_panels [of rep pat]
  by (auto simp: pattern_from_tensors_def Let_def)

lemma pattern_from_tensors_kept:
  assumes "pattern_from_tensors rep sa True pat = Inr pat'"
  shows "panel_order pat' = Some (map slot_name (kept_slots 0 rep))
     \<and> map fst (panels pat') = map slot_name (kept_slots 0 rep)"
proof -
  from pattern_from_tensors_panels [of rep pat]
  obtain pat1 where s: "panel_slots 0 rep True (pat\<lparr>panels := []\<rparr>, [])
       = Inr (pat1, map slot_name (kept_slots 0 rep))"
    and k: "map fst (panels pat1) = map slot_name (kept_slots 0 rep)"
    by blast
  let ?order = "map slot_name (kept_slots 0 rep)"
  let ?pat2 = "pat1\<lparr>panel_order := Some ?order, stitches := []\<rparr>"
  from assms s have "(\<exists>sts. pat' = ?pat2\<lparr>stitches := sts\<rparr>)
      \<or> pat' = ?pat2\<lparr>warnings := warnings ?pat2 @ [StitchesRemoved]\<rparr>"
    by (auto simp: pattern_from_tensors_def Let_def split: if_splits sum.splits)
  with k show ?thesis by auto
qed

lemma slot_kept_iff:
  assumes "i < length rep"
  shows "(slot_name i \<in> set (map slot_name (kept_slots 0 rep))) = (3 \<le> length (strip_padding (rep ! i)))"
proof -
  have "(slot_name i \<in> set (map slot_name (kept_slots 0 rep))) = (i \<in> set (kept_slots 0 rep))"
    by (auto dest: slot_name_inj)
  also have "\<dots> = (3 \<le> length (strip_padding (rep ! i)))"
    using assms by (auto simp: set_kept_slots)
  finally show ?thesis .
qed

text \<open>
  C4. With \<^verbatim>\<open>padded=True\<close> the rows whose four components are all within 1.5 of zero are
  stripped, and \<^verbatim>\<open>panel_from_numeric\<close> raises \<^verbatim>\<open>EmptyPanelError\<close> exactly when fewer than
  three rows remain. \<^verbatim>\<open>pattern_from_tensors\<close> catches it: the decoded pattern and its
  \<^verbatim>\<open>panel_order\<close> hold exactly the slots that keep three rows, in tensor order, so the
  loop goes on after a skipped slot, and a slot of padding rows only appears in neither.
\<close>

theorem padding_panels_are_skipped:
  "(panel_from_numeric nm es True pat = Inl EmptyPanelError) = (length (strip_padding es) < 3)
   \<and> strip_padding es = filter (\<lambda>(dx, dy, cx, cy).
         \<not> (\<bar>dx\<bar> \<le> 3 / 2 \<and> \<bar>dy\<bar> \<le> 3 / 2 \<and> \<bar>cx\<bar> \<le> 3 / 2 \<and> \<bar>cy\<bar> \<le> 3 / 2)) es
   \<and> (\<exists>pat1. pattern_from_tensors rep None True pat = Inr pat1)
   \<and> (pattern_from_tensors rep sa True pat = Inr pat' \<longrightarrow>
         panel_order pat' = Some (map slot_name (kept_slots 0 rep))
       \<and> map fst (panels pat') = map slot_name (kept_slots 0 rep)
       \<and> (\<forall>i < length rep.
            (slot_name i \<in> set (map slot_name (kept_slots 0 rep)))
              = (3 \<le> length (strip_padding (rep ! i))))
       \<and> (\<forall>i < length rep. list_all (is_pad_row (3 / 2)) (rep ! i) \<longrightarrow>
             map_of (panels pat') (slot_name i) = None
           \<and> slot_name i \<notin> set (the (panel_order pat'))))"
proof (intro conjI impI allI)
  show "(panel_from_numeric nm es True pat = Inl EmptyPanelError) = (length (strip_padding es) < 3)"
    by (rule panel_from_numeric_padded_iff)
  show "strip_padding es = filter (\<lambda>(dx, dy, cx, cy).
         \<not> (\<bar>dx\<bar> \<le> 3 / 2 \<and> \<bar>dy\<bar> \<le> 3 / 2 \<and> \<bar>cx\<bar> \<le> 3 / 2 \<and> \<bar>cy\<bar> \<le> 3 / 2)) es"
    by (rule strip_padding_tolerance)
  show "\<exists>pat1. pattern_from_tensors rep None True pat = Inr pat1"
    by (rule pattern_from_tensors_no_stitches)
next
  assume r: "pattern_from_tensors rep sa True pat = Inr pat'"
  note k = pattern_from_tensors_kept [OF r]
  show "panel_order pat' = Some (map slot_name (kept_slots 0 rep))" using k by simp
  show "map fst (panels pat') = map slot_name (kept_slots 0 rep)" using k by simp
  {
    fix i assume "i < length rep"
    then show "(slot_name i \<in> set (map slot_name (kept_slots 0 rep)))
              = (3 \<le> length (strip_padding (rep ! i)))"
      by (rule slot_kept_iff)
  }
  {
    fix i assume i: "i < length rep" and pad: "list_all (is_pad_row (3 / 2)) (rep ! i)"
    have "\<not> 3 \<le> length (strip_padding (rep ! i))"
      using strip_padding_all_pad [OF pad] by simp
    with slot_kept_iff [OF i] have out: "slot_name i \<notin> set (map slot_name (kept_slots 0 rep))"
      by simp
    then have "slot_name i \<notin> fst ` set (panels pat')"
      using k by (metis list.set_map)
    then show "map_of (panels pat') (slot_name i) = None"
      by (simp add: map_of_eq_None_iff)
    show "slot_name i \<notin> set (the (panel_order pat'))"
      using out k by simp
  }
qed


theorem padding_panels_are_skipped_witness:
  "\<exists>pat'. pattern_from_tensors
       [[(10, 0, 0, 0), (0, 10, 0, 0), (- 10, 0, 0, 0), (0, - 10, 0, 0), (0, 0, 0, 0)],
        [(0, 0, 0, 0), (0, 0, 0, 0), (0, 0, 0, 0), (0, 0, 0, 0), (0, 0, 0, 0)],
        [(10, 0, 0, 0), (0, 10, 0, 0), (- 10, 0, 0, 0), (0, - 10, 0, 0), (0, 0, 0, 0)]]
       None True empty_pattern = Inr pat'
     \<and> panel_order pat' = Some [''panel_0'', ''panel_2'']
     \<and> map fst (panels pat') = [''panel_0'', ''panel_2'']
     \<and> map_of (panels pat') ''panel_1'' = None"
proof -
  let ?rep = "[[(10, 0, 0, 0), (0, 10, 0, 0), (- 10, 0, 0, 0), (0, - 10, 0, 0), (0, 0, 0, 0)],
        [(0, 0, 0, 0), (0, 0, 0, 0), (0, 0, 0, 0), (0, 0, 0, 0), (0, 0, 0, 0)],
        [(10, 0, 0, 0), (0, 10, 0, 0), (- 10, 0, 0, 0), (0, - 10, 0, 0), (0, 0, 0, 0)]] :: edge_row list list"
  have kept: "map slot_name (kept_slots 0 ?rep) = [''panel_0'', ''panel_2'']"
    by code_simp
  have name1: "slot_name 1 = ''panel_1''"
    by code_simp
  have pad: "list_all (is_pad_row (3 / 2)) (?rep ! 1)"
    by code_simp
  from padding_panels_are_skipped [where rep = ?rep and pat = empty_pattern]
  obtain pat1 where r: "pattern_from_tensors ?rep None True empty_pattern = Inr pat1"
    by blast
  from padding_panels_are_skipped [where rep = ?rep and pat = empty_pattern and sa = None
      and pat' = pat1] r
  have order: "panel_order pat1 = Some (map slot_name (kept_slots 0 ?rep))"
    and keys: "map fst (panels pat1) = map slot_name (kept_slots 0 ?rep)"
    and gone: "\<forall>i < length ?rep. list_all (is_pad_row (3 / 2)) (?rep ! i) \<longrightarrow>
             map_of (panels pat1) (slot_name i) = None
           \<and> slot_name i \<notin> set (the (panel_order pat1))"
    by blast+
  from gone pad have "map_of (panels pat1) (slot_name 1) = None"
    by simp
  with r order keys kept name1 show ?thesis
    by simp
qed

lemma displacement_sum_Cons:
  "displacement_sum (r # rows) = vadd (row_shift r) (displacement_sum rows)"
  by (simp add: displacement_sum_def vadd_def)

lemma vadd_assoc: "vadd (vadd a b) c = vadd a (vadd b c)"
  by (simp add: vadd_def)

lemma vadd_zero: "vadd (0, 0) v = v" "vadd v (0, 0) = v"
  by (simp_all add: vadd_def)

lemma displacement_sum_Nil: "displacement_sum [] = (0, 0)"
  by (simp add: displacement_sum_def)

lemma edge_loop_result:
  assumes "length vs = Suc idx"
  shows "edge_loop idx rows (vs, es) =
     (vs @ map (\<lambda>j. vadd (last vs) (displacement_sum (take (Suc j) rows))) [0..<length rows],
      es @ map (\<lambda>j. edge_dict (idx + j) (Suc (idx + j)) (row_curvature (rows ! j))) [0..<length rows])"
  using assms
proof (induction rows arbitrary: idx vs es)
  case Nil
  show ?case by simp
next
  case (Cons r rest)
  have vs: "vs ! idx = last vs"
    using Cons.prems by (cases vs rule: rev_cases) (simp_all add: nth_append)
  let ?v1 = "vadd (last vs) (row_shift r)"
  have len1: "length (vs @ [?v1]) = Suc (Suc idx)"
    using Cons.prems by simp
  have step: "edge_loop idx (r # rest) (vs, es)
      = edge_loop (Suc idx) rest (vs @ [?v1], es @ [edge_dict idx (Suc idx) (row_curvature r)])"
    by (simp add: vs Let_def)
  show ?case
    unfolding step Cons.IH [OF len1]
    by (simp add: map_upt_Suc displacement_sum_Cons displacement_sum_Nil vadd_zero vadd_assoc del: upt_Suc)
qed


text \<open>
  C3, as amended. For every edge sequence that has a row and passes the empty-panel
  guard (with \<^verbatim>\<open>padded=True\<close>, at least three rows are left after stripping),
  \<^verbatim>\<open>panel_from_numeric\<close> returns: vertex \<open>i\<close> is the sum of the first \<open>i\<close> displacements,
  starting from the origin; when the sum of all displacements is within 3 of zero in
  both coordinates the last edge ends at vertex 0 and no vertex is added and no warning
  printed; otherwise the sum becomes one more vertex, the last edge ends there and one
  warning is added.
\<close>

theorem panel_from_numeric_closing:
  assumes "seq = (if padded then strip_padding edge_sequence else edge_sequence)"
    and "seq \<noteq> []" and "padded \<longrightarrow> 3 \<le> length seq"
  shows "\<exists>p. panel_from_numeric nm edge_sequence padded pat
           = Inr (pat\<lparr>panels := dict_set nm p (panels pat),
                     warnings := (if \<bar>fst (displacement_sum seq)\<bar> \<le> 3 \<and> \<bar>snd (displacement_sum seq)\<bar> \<le> 3
                                  then warnings pat
                                  else warnings pat @ [NoReturnToOrigin nm])\<rparr>)
     \<and> (\<forall>i < length seq. vertices p ! i = displacement_sum (take i seq))
     \<and> length (edges p) = length seq
     \<and> (\<forall>i < length seq - 1. endpoints (edges p ! i) = (i, Suc i))
     \<and> (if \<bar>fst (displacement_sum seq)\<bar> \<le> 3 \<and> \<bar>snd (displacement_sum seq)\<bar> \<le> 3
         then length (vertices p) = length seq
            \<and> endpoints (edges p ! (length seq - 1)) = (length seq - 1, 0)
         else length (vertices p) = Suc (length seq)
            \<and> vertices p ! length seq = displacement_sum seq
            \<and> endpoints (edges p ! (length seq - 1)) = (length seq - 1, length seq))"
proof -
  let ?k = "length seq"
  define vs where "vs = [(0, 0)] @ map (\<lambda>j. vadd (last [(0, 0)]) (displacement_sum (take (Suc j) (butlast seq))))
                [0..<length (butlast seq)]"
  define es where "es = [] @ map (\<lambda>j. edge_dict (0 + j) (Suc (0 + j)) (row_curvature (butlast seq ! j)))
                [0..<length (butlast seq)]"
  have loop: "edge_loop 0 (butlast seq) ([(0, 0)], []) = (vs, es)"
    unfolding vs_def es_def by (rule edge_loop_result) simp
  have g1: "(if padded then strip_padding edge_sequence else edge_sequence) = seq"
    using assms(1) by simp
  have g2: "\<not> (padded \<and> length seq < 3)"
    using assms(3) by auto
  have k: "length (butlast seq) = ?k - 1" "0 < ?k"
    using assms(2) by simp_all
  have len_vs: "length vs = ?k"
    using k by (simp add: vs_def)
  have vs_nth: "vs ! i = displacement_sum (take i seq)" if "i < ?k" for i
  proof (cases i)
    case 0
    then show ?thesis by (simp add: vs_def displacement_sum_Nil)
  next
    case (Suc j)
    with that have j: "j < length (butlast seq)" using k by simp
    have "take (Suc j) (butlast seq) = take (Suc j) seq"
      using j by (simp add: take_butlast)
    with Suc j show ?thesis
      by (simp add: vs_def vadd_zero nth_append)
  qed
  have "vs \<noteq> []"
    using len_vs k by auto
  then have "last vs = vs ! (length vs - 1)"
    by (rule last_conv_nth)
  then have "last vs = vs ! (?k - 1)"
    by (simp only: len_vs)
  also have "\<dots> = displacement_sum (take (?k - 1) seq)"
    using k by (intro vs_nth) simp
  also have "take (?k - 1) seq = butlast seq"
    by (simp add: butlast_conv_take)
  finally have last_vs: "last vs = displacement_sum (butlast seq)" .
  have "displacement_sum seq = displacement_sum (butlast seq @ [last seq])"
    using assms(2) by simp
  also have "\<dots> = vadd (displacement_sum (butlast seq)) (row_shift (last seq))"
    by (simp add: displacement_sum_def vadd_def)
  finally have fin: "vadd (last vs) (row_shift (last seq)) = displacement_sum seq"
    using last_vs by simp
  have es_len: "length es = ?k - 1"
    using k by (simp add: es_def)
  have es_nth: "endpoints (es ! i) = (i, Suc i)" if "i < ?k - 1" for i
    using that k by (simp add: es_def edge_dict_def)
  have last_edge: "endpoints ((es @ [e]) ! (?k - 1)) = endpoints e" for e
    using es_len by (simp add: nth_append)
  have other_edges: "\<forall>i < ?k - 1. endpoints ((es @ [e]) ! i) = (i, Suc i)" for e
    using es_nth es_len by (simp add: nth_append)
  show ?thesis
  proof (cases "\<bar>fst (displacement_sum seq)\<bar> \<le> 3 \<and> \<bar>snd (displacement_sum seq)\<bar> \<le> 3")
    case True
    define p where "p = \<lparr>vertices = vs, edges = es @ [edge_dict (?k - 1) 0 (row_curvature (last seq))]\<rparr>"
    have res: "panel_from_numeric nm edge_sequence padded pat
        = Inr (pat\<lparr>panels := dict_set nm p (panels pat), warnings := warnings pat\<rparr>)"
      unfolding panel_from_numeric_def Let_def g1 loop p_def
      using assms(2) g2 True fin len_vs by (simp add: isclose_zero)
    have a: "\<forall>i < ?k. vertices p ! i = displacement_sum (take i seq)"
      using vs_nth by (simp add: p_def)
    have b: "length (edges p) = ?k"
      using k es_len by (simp add: p_def)
    have c: "\<forall>i < ?k - 1. endpoints (edges p ! i) = (i, Suc i)"
      using other_edges by (simp add: p_def)
    have d: "length (vertices p) = ?k \<and> endpoints (edges p ! (?k - 1)) = (?k - 1, 0)"
      using len_vs last_edge by (simp add: p_def edge_dict_def)
    from res a b c d True show ?thesis
      by (intro exI [of _ p]) simp
  next
    case False
    define p where "p = \<lparr>vertices = vs @ [vadd (last vs) (row_shift (last seq))],
               edges = es @ [edge_dict (?k - 1) (?k - 1 + 1) (row_curvature (last seq))]\<rparr>"
    have res: "panel_from_numeric nm edge_sequence padded pat
        = Inr (pat\<lparr>panels := dict_set nm p (panels pat),
                  warnings := warnings pat @ [NoReturnToOrigin nm]\<rparr>)"
      unfolding panel_from_numeric_def Let_def g1 loop p_def
      using assms(2) g2 False fin len_vs by (auto simp: isclose_zero)
    have a: "\<forall>i < ?k. vertices p ! i = displacement_sum (take i seq)"
      using vs_nth len_vs by (simp add: p_def nth_append)
    have b: "length (edges p) = ?k"
      using k es_len by (simp add: p_def)
    have c: "\<forall>i < ?k - 1. endpoints (edges p ! i) = (i, Suc i)"
      using other_edges by (simp add: p_def)
    have d: "length (vertices p) = Suc ?k \<and> vertices p ! ?k = displacement_sum seq
        \<and> endpoints (edges p ! (?k - 1)) = (?k - 1, ?k)"
      using k fin len_vs last_edge by (simp add: p_def nth_append edge_dict_def)
    from res a b c d False show ?thesis
      by (intro exI [of _ p]) simp
  qed
qed

theorem panel_from_numeric_closing_witness:
  "\<exists>p. panel_from_numeric ''front''
           [(10, 0, 0, 0), (0, 10, 0, 0), (- 10, 0, 0, 0), (0, - 10, 0, 0), (0, 0, 0, 0)] True empty_pattern
         = Inr (empty_pattern\<lparr>panels := dict_set ''front'' p (panels empty_pattern),
                               warnings := warnings empty_pattern\<rparr>)
       \<and> length (vertices p) = 4 \<and> vertices p ! 2 = (10, 10)
       \<and> endpoints (edges p ! 3) = (3, 0)"
proof -
  let ?es = "[(10, 0, 0, 0), (0, 10, 0, 0), (- 10, 0, 0, 0), (0, - 10, 0, 0), (0, 0, 0, 0)] :: edge_row list"
  let ?seq = "[(10, 0, 0, 0), (0, 10, 0, 0), (- 10, 0, 0, 0), (0, - 10, 0, 0)] :: edge_row list"
  have s: "?seq = (if True then strip_padding ?es else ?es)"
    by code_simp
  have ne: "?seq \<noteq> []" by simp
  have three: "True \<longrightarrow> 3 \<le> length ?seq" by simp
  have d: "displacement_sum ?seq = (0, 0)"
    by code_simp
  have d2: "displacement_sum (take 2 ?seq) = (10, 10)"
    by code_simp
  from panel_from_numeric_closing [OF s ne three, of "''front''" empty_pattern]
  obtain p where r: "panel_from_numeric ''front'' ?es True empty_pattern
         = Inr (empty_pattern\<lparr>panels := dict_set ''front'' p (panels empty_pattern),
               warnings := (if \<bar>fst (displacement_sum ?seq)\<bar> \<le> 3 \<and> \<bar>snd (displacement_sum ?seq)\<bar> \<le> 3
                            then warnings empty_pattern
                            else warnings empty_pattern @ [NoReturnToOrigin ''front''])\<rparr>)"
    and v: "\<forall>i < length ?seq. vertices p ! i = displacement_sum (take i ?seq)"
    and c: "if \<bar>fst (displacement_sum ?seq)\<bar> \<le> 3 \<and> \<bar>snd (displacement_sum ?seq)\<bar> \<le> 3
         then length (vertices p) = length ?seq
            \<and> endpoints (edges p ! (length ?seq - 1)) = (length ?seq - 1, 0)
         else length (vertices p) = Suc (length ?seq)
            \<and> vertices p ! length ?seq = displacement_sum ?seq
            \<and> endpoints (edges p ! (length ?seq - 1)) = (length ?seq - 1, length ?seq)"
    by blast
  from v have "vertices p ! 2 = displacement_sum (take 2 ?seq)"
    by simp
  with d2 have v2: "vertices p ! 2 = (10, 10)"
    by simp
  from r c v2 show ?thesis
    unfolding d by (intro exI [of _ p]) (simp add: eval_nat_numeral)
qed

theorem panel_from_numeric_empty_panel_counterexample:
  "panel_from_numeric ''front'' [(10, 0, 0, 0), (0, 10, 0, 0), (0, 0, 0, 0)] True empty_pattern
     = Inl EmptyPanelError"
  by code_simp

section \<open>Stitches: pattern-level edge ids and back\<close>

lemma then_do_Inr: "(then_do x f = Inr y) = (\<exists>v. x = Inr v \<and> f v = Inr y)"
  by (cases x) (simp_all add: then_do_def)

lemma in_order_Inr:
  "in_order xs = Inr vs \<Longrightarrow> length vs = length xs \<and> (\<forall>i < length xs. xs ! i = Inr (vs ! i))"
proof (induction xs arbitrary: vs)
  case Nil
  then show ?case by simp
next
  case (Cons x xs)
  from Cons.prems obtain v vs' where x: "x = Inr v" and r: "in_order xs = Inr vs'" and vs: "vs = v # vs'"
    by (auto split: sum.splits)
  from Cons.IH [OF r] have "length vs' = length xs" and "\<forall>i < length xs. xs ! i = Inr (vs' ! i)"
    by simp_all
  with x vs show ?case
    by (auto simp: nth_Cons split: nat.split)
qed

lemma in_order_map_Inr: "in_order (map (\<lambda>x. Inr (g x)) xs) = Inr (map g xs)"
  by (induction xs) simp_all

lemma in_order_map_Inr_cong:
  assumes "\<And>x. x \<in> set xs \<Longrightarrow> f x = Inr (g x)"
  shows "in_order (map f xs) = Inr (map g xs)"
  using assms by (induction xs) simp_all

lemma panel_as_numeric_padded:
  assumes "panel_as_numeric eav pat nm (Some n) = Inr rows"
  shows "length rows = n \<and> rows \<noteq> []
     \<and> (\<exists>p. map_of (panels pat) nm = Some p \<and> length (edges p) \<le> n)"
proof -
  from assms obtain p where p: "map_of (panels pat) nm = Some p"
    by (auto simp: panel_as_numeric_def split: option.splits)
  from assms p obtain es where es: "in_order (map (eav (vertices p)) (edges p)) = Inr es"
    by (auto simp: panel_as_numeric_def split: sum.splits)
  have len: "length es = length (edges p)"
    using in_order_Inr [OF es] by simp
  from assms p es have le: "length es \<le> n"
    and st: "np_stack (es @ replicate (n - length es) (0, 0, 0, 0)) = Inr rows"
    by (auto simp: panel_as_numeric_def split: if_splits)
  from st have rows: "rows = es @ replicate (n - length es) (0, 0, 0, 0)" and ne: "rows \<noteq> []"
    by (auto simp: np_stack_def split: if_splits)
  from rows le have "length rows = n" by simp
  with ne p len le show ?thesis by simp
qed

lemma kept_slots_prefix:
  assumes "n \<le> length reps" and "\<forall>i < n. 3 \<le> length (strip_padding (reps ! i))"
  shows "n \<le> length (kept_slots idx reps) \<and> (\<forall>i < n. kept_slots idx reps ! i = idx + i)"
  using assms
proof (induction reps arbitrary: idx n)
  case Nil
  then show ?case by simp
next
  case (Cons rep rest)
  show ?case
  proof (cases n)
    case 0
    then show ?thesis by simp
  next
    case (Suc m)
    with Cons.prems have first: "3 \<le> length (strip_padding rep)"
      by auto
    have m: "m \<le> length rest" using Cons.prems Suc by simp
    have rest: "\<forall>i < m. 3 \<le> length (strip_padding (rest ! i))"
    proof (intro allI impI)
      fix i assume "i < m"
      then have "Suc i < n" using Suc by simp
      with Cons.prems(2) have "3 \<le> length (strip_padding ((rep # rest) ! Suc i))" by blast
      then show "3 \<le> length (strip_padding (rest ! i))" by simp
    qed
    from Cons.IH [OF m rest, of "Suc idx"]
    have a: "m \<le> length (kept_slots (Suc idx) rest)"
      and b: "\<forall>i < m. kept_slots (Suc idx) rest ! i = Suc idx + i"
      by simp_all
    have "\<forall>i < n. kept_slots idx (rep # rest) ! i = idx + i"
    proof (intro allI impI)
      fix i assume i: "i < n"
      show "kept_slots idx (rep # rest) ! i = idx + i"
      proof (cases i)
        case 0
        with first show ?thesis by simp
      next
        case (Suc j)
        with i \<open>n = Suc m\<close> have "j < m" by simp
        with b first Suc show ?thesis by simp
      qed
    qed
    with a first Suc show ?thesis by simp
  qed
qed

lemma decode_side_ok:
  assumes L: "0 < L" and v: "0 \<le> v" and bound: "v div int L < int n"
    and len: "n \<le> length order'" and names: "\<forall>i < n. order' ! i = slot_name i"
  shows "decode_side L order' v = Inr \<lparr>panel = slot_name (nat (v div int L)), edge = v mod int L\<rparr>"
proof -
  have nonneg: "0 \<le> v div int L"
    using v L by (simp add: pos_imp_zdiv_nonneg_iff)
  have lt: "nat (v div int L) < n"
    using bound nonneg by simp
  have "v div int L \<le> int (length order') - 1"
    using bound len by simp
  moreover have "py_index order' (v div int L) = Inr (order' ! nat (v div int L))"
    using nonneg lt len by (simp add: py_index_def)
  moreover have "order' ! nat (v div int L) = slot_name (nat (v div int L))"
    using names lt by simp
  ultimately show ?thesis
    using L by (simp add: decode_side_def Let_def)
qed

lemma pattern_level_id:
  assumes "0 \<le> e" and "e < int L"
  shows "(int i * int L + e) div int L = int i" and "(int i * int L + e) mod int L = e"
    and "0 \<le> int i * int L + e"
  using assms by simp_all


lemma index_of_Some: "index_of xs x = Some i \<Longrightarrow> i < length xs \<and> xs ! i = x"
proof (induction xs arbitrary: i)
  case Nil
  then show ?case by simp
next
  case (Cons y ys)
  then show ?case by (cases "y = x") auto
qed

lemma encode_side_Inr:
  assumes "encode_side order L s sd = Inr v"
  shows "\<exists>i. index_of order (panel sd) = Some i \<and> i < length order \<and> order ! i = panel sd
           \<and> v = int i * int L + edge sd"
  using assms
  by (auto simp: encode_side_def split: option.splits if_splits dest: index_of_Some)

lemma encode_stitches_ids:
  assumes "encode_stitches order L sts = Inr ids0"
  shows "length ids0 = length sts
     \<and> (\<forall>k < length sts. length (ids0 ! k) = length (sts ! k)
          \<and> (\<forall>s < length (sts ! k). encode_side order L s (sts ! k ! s) = Inr (ids0 ! k ! s)))"
proof -
  note a = in_order_Inr [OF assms [unfolded encode_stitches_def]]
  have len: "length ids0 = length sts" using a by simp
  have each: "length (ids0 ! k) = length (sts ! k)
          \<and> (\<forall>s < length (sts ! k). encode_side order L s (sts ! k ! s) = Inr (ids0 ! k ! s))"
    if k: "k < length sts" for k
  proof -
    from a k have "in_order (map (\<lambda>id_side. encode_side order L id_side (sts ! k ! id_side))
                     [0..<length (sts ! k)]) = Inr (ids0 ! k)"
      by simp
    from in_order_Inr [OF this] show ?thesis by simp
  qed
  from len each show ?thesis by blast
qed

lemma then_doE:
  assumes "then_do x f = Inr y"
  obtains v where "x = Inr v" and "f v = Inr y"
  using assms by (cases x) (simp_all add: then_do_def)

lemma pattern_as_tensors_unpack:
  assumes "pattern_as_tensors eav L_opt ppn psn src = Inr (tensor, lens, n_panels, ids, n_st)"
  shows "\<exists>panel_lens max_len seqs ids0 stitches_num.
      in_order (map (\<lambda>nm. panel_as_numeric eav src nm (Some max_len)) (panel_order_of src)) = Inr seqs
    \<and> pad_panel_list ppn seqs panel_lens = Inr (tensor, lens)
    \<and> length (stitches src) \<le> stitches_num
    \<and> encode_stitches (panel_order_of src) max_len (stitches src) = Inr ids0
    \<and> tensor \<noteq> [] \<and> ids = stitch_index_array ids0 stitches_num"
proof -
  let ?order = "panel_order_of src"
  let ?num = "case psn of None \<Rightarrow> length (stitches src) | Some n \<Rightarrow> n"
  from assms [unfolded pattern_as_tensors_def Let_def]
  obtain panel_lens max_len seqs v4 where
    seqs: "in_order (map (\<lambda>nm. panel_as_numeric eav src nm (Some max_len)) ?order) = Inr seqs"
    and pad: "pad_panel_list ppn seqs panel_lens = Inr v4"
    and rest: "(case v4 of (panel_seqs, lens') \<Rightarrow>
           if ?num < length (stitches src) then Inl ValueError
           else then_do (encode_stitches ?order max_len (stitches src)) (\<lambda>ids.
                then_do (np_stack panel_seqs) (\<lambda>t.
                  Inr (t, lens', length (panels src),
                       stitch_index_array ids ?num, length (stitches src)))))
        = Inr (tensor, lens, n_panels, ids, n_st)"
    by (elim then_doE) blast
  obtain panel_seqs lens' where v4: "v4 = (panel_seqs, lens')"
    by (cases v4) auto
  from rest v4 have num: "length (stitches src) \<le> ?num"
    and rest2: "then_do (encode_stitches ?order max_len (stitches src)) (\<lambda>ids.
                then_do (np_stack panel_seqs) (\<lambda>t.
                  Inr (t, lens', length (panels src),
                       stitch_index_array ids ?num, length (stitches src))))
        = Inr (tensor, lens, n_panels, ids, n_st)"
    by (simp_all split: if_splits)
  from rest2 obtain ids0 t where enc: "encode_stitches ?order max_len (stitches src) = Inr ids0"
    and st: "np_stack panel_seqs = Inr t"
    and res: "(t, lens', length (panels src), stitch_index_array ids0 ?num, length (stitches src))
        = (tensor, lens, n_panels, ids, n_st)"
    by (elim then_doE) simp
  from st have "t = panel_seqs" and "panel_seqs \<noteq> []"
    by (simp_all add: np_stack_def split: if_splits)
  with res v4 pad have "pad_panel_list ppn seqs panel_lens = Inr (tensor, lens)"
    and "tensor \<noteq> []" and "ids = stitch_index_array ids0 ?num"
    by simp_all
  with seqs num enc show ?thesis by blast
qed


lemma encoded_tensor_shape:
  assumes seqs: "in_order (map (\<lambda>nm. panel_as_numeric eav src nm (Some max_len)) order) = Inr seqs"
    and pad: "pad_panel_list ppn seqs panel_lens = Inr (tensor, lens)"
    and ne: "tensor \<noteq> []"
  shows "length seqs = length order" and "length order \<le> length tensor" and "0 < length order"
    and "shape1 tensor = max_len" and "0 < max_len"
    and "\<forall>i < length order. tensor ! i = seqs ! i"
    and "\<forall>i < length order. \<exists>p. map_of (panels src) (order ! i) = Some p \<and> length (edges p) \<le> max_len"
proof -
  note a = in_order_Inr [OF seqs]
  show len: "length seqs = length order" using a by simp
  have each: "panel_as_numeric eav src (order ! i) (Some max_len) = Inr (seqs ! i)"
    if "i < length order" for i
    using a that by simp
  from pad have tensor: "tensor = seqs \<or> (seqs \<noteq> [] \<and> (\<exists>extra. tensor = seqs @ extra))"
    by (auto simp: pad_panel_list_def split: option.splits if_splits)
  with ne have seqs_ne: "seqs \<noteq> []" by auto
  then show pos: "0 < length order" using len by auto
  from tensor obtain extra where t: "tensor = seqs @ extra" by auto
  show "length order \<le> length tensor" using t len by simp
  show nth: "\<forall>i < length order. tensor ! i = seqs ! i"
    using t len by (simp add: nth_append)
  have "hd tensor = seqs ! 0"
    using t seqs_ne by (cases seqs) simp_all
  moreover have "length (seqs ! 0) = max_len \<and> seqs ! 0 \<noteq> []"
    using panel_as_numeric_padded [OF each [OF pos]] by simp
  ultimately have "length (hd tensor) = max_len" and "hd tensor \<noteq> []"
    by simp_all
  moreover have "shape1 tensor = length (hd tensor)"
    using ne by (cases tensor) (simp_all add: shape1_def)
  ultimately show "shape1 tensor = max_len" and "0 < max_len"
    by auto
  show "\<forall>i < length order. \<exists>p. map_of (panels src) (order ! i) = Some p \<and> length (edges p) \<le> max_len"
    using panel_as_numeric_padded [OF each] by blast
qed

lemma stitch_index_array_shape:
  "length (stitch_index_array ids0 num) = 2"
  "shape1 (stitch_index_array ids0 num) = num"
  "stitch_index_array ids0 num \<noteq> []"
  by (simp_all add: stitch_index_array_def shape1_def upt_rec [of 0 2] upt_rec [of 1 2])

lemma stitch_index_array_nth:
  assumes "s < 2" and "k < num"
  shows "stitch_index_array ids0 num ! s ! k
     = (if k < length ids0 \<and> s < length (ids0 ! k) then ids0 ! k ! s else 0)"
  using assms by (simp add: stitch_index_array_def)


text \<open>
  C1, as amended. Take a pattern that \<^verbatim>\<open>pattern_as_tensors\<close> encodes (so every panel has at
  most \<open>L\<close> edges and every stitch names panels of the panel order), whose stitches have
  two sides that reference existing panels and edges, and every panel of which is kept
  by the decoder (at least three of its rows are left after stripping the rows within
  1.5 of zero). Then \<^verbatim>\<open>pattern_from_tensors\<close> with \<^verbatim>\<open>padded=True\<close> returns on the encoded
  tensor and index array; panel \<open>i\<close> of the encoder's order is decoded as \<^verbatim>\<open>panel_i\<close>, and
  side \<open>s\<close> of stitch \<open>k\<close> is decoded as the panel index and the edge of the original
  side.
\<close>

theorem stitch_ids_round_trip:
  assumes enc: "pattern_as_tensors eav pad_panels_to_len ppn psn src
                  = Inr (tensor, lens, n_panels, ids, n_st)"
    and kept: "\<forall>i < length (panel_order_of src). 3 \<le> length (strip_padding (tensor ! i))"
    and sides: "\<forall>st \<in> set (stitches src). length st = 2
                  \<and> (\<forall>sd \<in> set st. \<exists>p. map_of (panels src) (panel sd) = Some p
                          \<and> 0 \<le> edge sd \<and> edge sd < int (length (edges p)))"
  shows "\<exists>pat'. pattern_from_tensors tensor (Some ids) True pat = Inr pat'
      \<and> (\<forall>i < length (panel_order_of src). the (panel_order pat') ! i = slot_name i)
      \<and> (\<forall>k < length (stitches src). \<forall>s < 2.
            \<exists>i. index_of (panel_order_of src) (panel (stitches src ! k ! s)) = Some i
              \<and> stitches pat' ! k ! s
                  = \<lparr>panel = slot_name i, edge = edge (stitches src ! k ! s)\<rparr>)"
proof -
  let ?order = "panel_order_of src"
  let ?n = "length ?order"
  from pattern_as_tensors_unpack [OF enc]
  obtain panel_lens L seqs ids0 num where
    seqs: "in_order (map (\<lambda>nm. panel_as_numeric eav src nm (Some L)) ?order) = Inr seqs"
    and pad: "pad_panel_list ppn seqs panel_lens = Inr (tensor, lens)"
    and num: "length (stitches src) \<le> num"
    and encs: "encode_stitches ?order L (stitches src) = Inr ids0"
    and ne: "tensor \<noteq> []" and ids: "ids = stitch_index_array ids0 num"
    by blast
  note shape = encoded_tensor_shape [OF seqs pad ne]
  note e = encode_stitches_ids [OF encs]
  let ?order' = "map slot_name (kept_slots 0 tensor)"
  from pattern_from_tensors_panels [of tensor pat]
  obtain pat1 where slots: "panel_slots 0 tensor True (pat\<lparr>panels := []\<rparr>, []) = Inr (pat1, ?order')"
    by blast
  from kept_slots_prefix [OF shape(2) kept, of 0]
  have len': "?n \<le> length ?order'" and names: "\<forall>i < ?n. ?order' ! i = slot_name i"
    by simp_all
  define dec where "dec v = \<lparr>panel = slot_name (nat (v div int L)), edge = v mod int L\<rparr>" for v
  have real: "\<exists>i. index_of ?order (panel (stitches src ! k ! s)) = Some i \<and> i < ?n
        \<and> ids0 ! k ! s = int i * int L + edge (stitches src ! k ! s)
        \<and> 0 \<le> edge (stitches src ! k ! s) \<and> edge (stitches src ! k ! s) < int L"
    if k: "k < length (stitches src)" and s: "s < length (stitches src ! k)" for k s
  proof -
    let ?sd = "stitches src ! k ! s"
    from e k s have "encode_side ?order L s ?sd = Inr (ids0 ! k ! s)"
      by simp
    from encode_side_Inr [OF this]
    obtain i where i: "index_of ?order (panel ?sd) = Some i" "i < ?n" "?order ! i = panel ?sd"
      "ids0 ! k ! s = int i * int L + edge ?sd"
      by blast
    from k have "stitches src ! k \<in> set (stitches src)" by simp
    moreover from s have "?sd \<in> set (stitches src ! k)" by simp
    ultimately obtain p where p: "map_of (panels src) (panel ?sd) = Some p"
      "0 \<le> edge ?sd" "edge ?sd < int (length (edges p))"
      using sides by blast
    from shape(7) i(2) obtain p' where "map_of (panels src) (?order ! i) = Some p'"
      "length (edges p') \<le> L"
      by blast
    with p i(3) have "edge ?sd < int L" by simp
    with i p(2) show ?thesis by blast
  qed
  have two: "length (stitches src ! k) = 2" if "k < length (stitches src)" for k
    using sides that by simp
  have len_ids0: "length ids0 = length (stitches src)"
    "\<And>k. k < length (stitches src) \<Longrightarrow> length (ids0 ! k) = 2"
    using e two by simp_all
  have bound: "0 \<le> ids ! s ! k \<and> (ids ! s ! k) div int L < int ?n"
    if s: "s < 2" and k: "k < num" for s k
  proof (cases "k < length (stitches src)")
    case True
    with s two have s': "s < length (stitches src ! k)" by simp
    from real [OF True s'] obtain i where i: "i < ?n"
      "ids0 ! k ! s = int i * int L + edge (stitches src ! k ! s)"
      "0 \<le> edge (stitches src ! k ! s)" "edge (stitches src ! k ! s) < int L"
      by blast
    have "ids ! s ! k = ids0 ! k ! s"
      using True s len_ids0 by (simp add: ids stitch_index_array_nth [OF s k])
    with i pattern_level_id [OF i(3) i(4), of i] show ?thesis by simp
  next
    case False
    then have "ids ! s ! k = 0"
      using len_ids0 by (simp add: ids stitch_index_array_nth [OF s k])
    with shape(3) show ?thesis by simp
  qed
  have side_ok: "decode_side L ?order' (ids ! s ! k) = Inr (dec (ids ! s ! k))"
    if "s < 2" and "k < num" for s k
    unfolding dec_def
    using bound [OF that] by (intro decode_side_ok [OF shape(5) _ _ len' names]) simp_all
  have stitch_ok: "in_order (map (\<lambda>side_id. decode_side L ?order' (ids ! side_id ! k)) [0..<length ids])
      = Inr (map (\<lambda>s. dec (ids ! s ! k)) [0..<length ids])" if "k < num" for k
    by (rule in_order_map_Inr_cong) (use side_ok that in \<open>simp add: ids stitch_index_array_shape\<close>)
  have all_ok: "in_order (map (\<lambda>stitch_id.
          in_order (map (\<lambda>side_id. decode_side L ?order' (ids ! side_id ! stitch_id)) [0..<length ids]))
        [0..<shape1 ids])
      = Inr (map (\<lambda>k. map (\<lambda>s. dec (ids ! s ! k)) [0..<length ids]) [0..<shape1 ids])"
    by (rule in_order_map_Inr_cong) (use stitch_ok in \<open>simp add: ids stitch_index_array_shape\<close>)
  define pat' where "pat' = pat1\<lparr>panel_order := Some ?order',
      stitches := map (\<lambda>k. map (\<lambda>s. dec (ids ! s ! k)) [0..<length ids]) [0..<shape1 ids]\<rparr>"
  have ids_ne: "ids \<noteq> []"
    by (simp add: ids stitch_index_array_shape)
  have res: "pattern_from_tensors tensor (Some ids) True pat = Inr pat'"
    unfolding pattern_from_tensors_def slots
    using ids_ne all_ok by (simp add: Let_def shape(4) pat'_def)
  have order_ok: "\<forall>i < ?n. the (panel_order pat') ! i = slot_name i"
    using names by (simp add: pat'_def)
  have st_ok: "\<exists>i. index_of ?order (panel (stitches src ! k ! s)) = Some i
              \<and> stitches pat' ! k ! s = \<lparr>panel = slot_name i, edge = edge (stitches src ! k ! s)\<rparr>"
    if k: "k < length (stitches src)" and s: "s < 2" for k s
  proof -
    from s two [OF k] have s': "s < length (stitches src ! k)" by simp
    from real [OF k s'] obtain i where i: "index_of ?order (panel (stitches src ! k ! s)) = Some i"
      "ids0 ! k ! s = int i * int L + edge (stitches src ! k ! s)"
      "0 \<le> edge (stitches src ! k ! s)" "edge (stitches src ! k ! s) < int L"
      by blast
    have kn: "k < num" using k num by simp
    have v: "ids ! s ! k = ids0 ! k ! s"
      using k s len_ids0 by (simp add: ids stitch_index_array_nth [OF s kn])
    have "stitches pat' ! k ! s = dec (ids ! s ! k)"
      using kn s by (simp add: pat'_def ids stitch_index_array_shape)
    also have "\<dots> = \<lparr>panel = slot_name i, edge = edge (stitches src ! k ! s)\<rparr>"
      unfolding v i(2) dec_def using pattern_level_id [OF i(3) i(4), of i] by simp
    finally show ?thesis using i(1) by blast
  qed
  from res order_ok st_ok show ?thesis by blast
qed

theorem stitch_ids_round_trip_witness:
  "\<exists>pat'. pattern_from_tensors
        [[(10, 0, 0, 0), (0, 10, 0, 0), (- 10, 0, 0, 0), (0, - 10, 0, 0), (0, 0, 0, 0)],
         [(10, 0, 0, 0), (0, 10, 0, 0), (- 10, 0, 0, 0), (0, - 10, 0, 0), (0, 0, 0, 0)],
         [(0, 0, 0, 0), (0, 0, 0, 0), (0, 0, 0, 0), (0, 0, 0, 0), (0, 0, 0, 0)]]
        (Some [[0, 0], [7, 0]]) True empty_pattern = Inr pat'
     \<and> stitches pat' ! 0 ! 0 = \<lparr>panel = ''panel_0'', edge = 0\<rparr>
     \<and> stitches pat' ! 0 ! 1 = \<lparr>panel = ''panel_1'', edge = 2\<rparr>"
proof -
  let ?t = "[[(10, 0, 0, 0), (0, 10, 0, 0), (- 10, 0, 0, 0), (0, - 10, 0, 0), (0, 0, 0, 0)],
         [(10, 0, 0, 0), (0, 10, 0, 0), (- 10, 0, 0, 0), (0, - 10, 0, 0), (0, 0, 0, 0)],
         [(0, 0, 0, 0), (0, 0, 0, 0), (0, 0, 0, 0), (0, 0, 0, 0), (0, 0, 0, 0)]] :: edge_row list list"
  have enc: "pattern_as_tensors spec_edge_as_vector (Some 5) (Some 3) (Some 2) two_squares
      = Inr (?t, [4, 4, 0], 2, [[0, 0], [7, 0]], 1)"
    by code_simp
  have kept: "\<forall>i < length (panel_order_of two_squares). 3 \<le> length (strip_padding (?t ! i))"
    by code_simp
  have sides: "\<forall>st \<in> set (stitches two_squares). length st = 2
                  \<and> (\<forall>sd \<in> set st. \<exists>p. map_of (panels two_squares) (panel sd) = Some p
                          \<and> 0 \<le> edge sd \<and> edge sd < int (length (edges p)))"
    by (simp add: two_squares_def square_panel_def)
  have name0: "slot_name 0 = ''panel_0''" and name1: "slot_name (Suc 0) = ''panel_1''"
    by code_simp+
  from stitch_ids_round_trip [OF enc kept sides, of empty_pattern]
  obtain pat' where r: "pattern_from_tensors ?t (Some [[0, 0], [7, 0]]) True empty_pattern = Inr pat'"
    and st: "\<forall>k < length (stitches two_squares). \<forall>s < 2.
            \<exists>i. index_of (panel_order_of two_squares) (panel (stitches two_squares ! k ! s)) = Some i
              \<and> stitches pat' ! k ! s
                  = \<lparr>panel = slot_name i, edge = edge (stitches two_squares ! k ! s)\<rparr>"
    by blast
  from st [rule_format, of 0 0] have a: "stitches pat' ! 0 ! 0 = \<lparr>panel = ''panel_0'', edge = 0\<rparr>"
    by (auto simp: two_squares_def panel_order_of_def name0)
  from st [rule_format, of 0 1] have b: "stitches pat' ! 0 ! 1 = \<lparr>panel = ''panel_1'', edge = 2\<rparr>"
    by (auto simp: two_squares_def panel_order_of_def name1)
  from r a b show ?thesis by blast
qed

theorem stitch_ids_round_trip_counterexample:
  "pattern_as_tensors spec_edge_as_vector (Some 4) None None small_and_square
     = Inr ([[(1, 0, 0, 0), (- 1, 1, 0, 0), (0, - 1, 0, 0), (0, 0, 0, 0)],
             [(10, 0, 0, 0), (0, 10, 0, 0), (- 10, 0, 0, 0), (0, - 10, 0, 0)]],
            [3, 4], 2, [[0], [6]], 1)
   \<and> pattern_from_tensors
        [[(1, 0, 0, 0), (- 1, 1, 0, 0), (0, - 1, 0, 0), (0, 0, 0, 0)],
         [(10, 0, 0, 0), (0, 10, 0, 0), (- 10, 0, 0, 0), (0, - 10, 0, 0)]]
        (Some [[0], [6]]) True empty_pattern
     = Inl InvalidPatternDefError"
  by code_simp

end
